theory Spec2Isabelle
  imports Complex_Main
begin

section \<open>The import converter (openerp/addons/base/ir/ir\_fields.py)\<close>

subsection \<open>Raw input, converted values, errors\<close>

text \<open>
  A record handed to the converter is a Python dict from sub-field names to values. Its keys
  are field names, or \<open>None\<close> for a reference by display name, so a key is a
  \<open>string option\<close>. A value is text, or a list of nested records for a relational
  field. A dict is an association list in insertion order, which is the order of
  \<open>record.items()\<close>.
\<close>

type_synonym key = "string option"

datatype raw = Text string | Rows "(key \<times> raw) list list"

type_synonym entries = "(key \<times> raw) list"

text \<open>
  The seven relational commands are the tuples built by the lambdas \<open>CREATE\<close> to
  \<open>REPLACE_WITH\<close>: \<open>(0, False, values)\<close>, \<open>(1, id, values)\<close>, \<open>(2, id, False)\<close>,
  \<open>(3, id, False)\<close>, \<open>(4, id, False)\<close>, \<open>(5, False, False)\<close>, \<open>(6, False, ids)\<close>.
  They are parametric in the type of the values dict.
\<close>

datatype 'v command =
    CREATE 'v
  | UPDATE int 'v
  | DELETE int
  | FORGET int
  | LINK_TO int
  | DELETE_ALL
  | REPLACE_WITH "int list"

text \<open>
  The values a converter returns. \<open>PFalse\<close> is Python's \<open>False\<close> stored for an empty
  input; \<open>PFloat\<close> carries the number the float parser of the environment produced;
  \<open>PRaw\<close> is an input value handed through unchanged.
\<close>

datatype val =
    PFalse
  | PBool bool
  | PInt int
  | PFloat rat
  | PRaw raw
  | PCommands "(key \<times> val) list command list"

type_synonym converted = "(key \<times> val) list"

datatype warning =
    UnknownBoolean string
  | MultipleMatches nat

datatype message =
    NotAnInteger string
  | NotANumber string
  | NotADate string
  | NotADatetime string
  | NotInSelection string
  | InvalidDatabaseId string
  | NoMatchingRecord string string
  | UnknownSubfield key
  | IndirectManyToOne
  | AmbiguousSpecification
  | UnpackFailed

text \<open>
  Exceptions. \<open>ValueError\<close> is the only one the converter loop catches; \<open>KeyError\<close>,
  \<open>TypeError\<close> and the plain \<open>Exception\<close> of \<open>db_id_for\<close> pass through it.
  \<open>AssertionError\<close> and \<open>MissingError\<close> are raised by the relational columns and
  the storage below.
\<close>

datatype exn =
    ValueError message
  | KeyError key
  | TypeError
  | AttributeError
  | AssertionError
  | MissingError
  | Exception message

text \<open>What is passed to the logger: an \<open>ImportWarning\<close> or a caught \<open>ValueError\<close>.\<close>

datatype issue = Warn warning | Err message

type_synonym conversion = "exn + (val \<times> warning list)"

type_synonym 's logger = "key \<Rightarrow> issue \<Rightarrow> 's \<Rightarrow> exn + 's"

subsection \<open>Referencing sub-fields\<close>

definition REFERENCING_FIELDS :: "key set" where
  "REFERENCING_FIELDS = {None, Some ''id'', Some ''.id''}"

definition only_ref_fields :: "(key \<times> 'a) list \<Rightarrow> (key \<times> 'a) list" where
  "only_ref_fields record = filter (\<lambda>(k, v). k \<in> REFERENCING_FIELDS) record"

definition exclude_ref_fields :: "(key \<times> 'a) list \<Rightarrow> (key \<times> 'a) list" where
  "exclude_ref_fields record = filter (\<lambda>(k, v). k \<notin> REFERENCING_FIELDS) record"

subsection \<open>The converter loop of \<open>for_model\<close>\<close>

text \<open>\<open>d[k] = v\<close> on a dict: replace the value of an existing key, or add the key last.\<close>

fun dict_set :: "('k \<times> 'v) list \<Rightarrow> 'k \<Rightarrow> 'v \<Rightarrow> ('k \<times> 'v) list" where
  "dict_set [] k v = [(k, v)]"
| "dict_set ((k', v') # d) k v = (if k' = k then (k, v) # d else (k', v') # dict_set d k v)"

text \<open>\<open>not value\<close>: the empty string and the empty list are false.\<close>

fun falsy :: "raw \<Rightarrow> bool" where
  "falsy (Text s) = (s = [])"
| "falsy (Rows rs) = (rs = [])"

text \<open>
  \<open>for w in ws: log(field, w)\<close>. The logger may raise; the loop then stops, and the state
  is the one reached by the calls that returned.
\<close>

fun log_warnings :: "'s logger \<Rightarrow> key \<Rightarrow> warning list \<Rightarrow> 's \<Rightarrow> exn option \<times> 's" where
  "log_warnings logger field [] s = (None, s)"
| "log_warnings logger field (w # ws) s =
     (case logger field (Warn w) s of
        Inl e \<Rightarrow> (Some e, s)
      | Inr s' \<Rightarrow> log_warnings logger field ws s')"

text \<open>
  The body of \<open>fn\<close>, the function \<open>for_model\<close> returns. \<open>conv field value\<close> is the
  expression \<open>converters[field](value)\<close>. The \<open>try\<close> covers the call, the assignment
  to \<open>converted[field]\<close> and the logging of the warnings; \<open>except ValueError\<close> logs the
  error against the field and goes on with the next entry; any other exception leaves
  the function.
\<close>

fun fn :: "(key \<Rightarrow> raw \<Rightarrow> conversion) \<Rightarrow> entries \<Rightarrow> 's logger \<Rightarrow> converted \<Rightarrow> 's
    \<Rightarrow> exn + (converted \<times> 's)" where
  "fn conv [] logger converted s = Inr (converted, s)"
| "fn conv ((field, value) # rest) logger converted s =
     (if field \<in> {None, Some ''id'', Some ''.id''} then fn conv rest logger converted s
      else if falsy value then fn conv rest logger (dict_set converted field PFalse) s
      else
        (case conv field value of
           Inr (v, ws) \<Rightarrow>
             (case log_warnings logger field ws s of
                (None, s') \<Rightarrow> fn conv rest logger (dict_set converted field v) s'
              | (Some (ValueError m), s') \<Rightarrow>
                  (case logger field (Err m) s' of
                     Inl e \<Rightarrow> Inl e
                   | Inr s'' \<Rightarrow> fn conv rest logger (dict_set converted field v) s'')
              | (Some e, s') \<Rightarrow> Inl e)
         | Inl (ValueError m) \<Rightarrow>
             (case logger field (Err m) s of
                Inl e \<Rightarrow> Inl e
              | Inr s' \<Rightarrow> fn conv rest logger converted s')
         | Inl e \<Rightarrow> Inl e))"

text \<open>
  \<open>converters[field](value)\<close> for the dict \<open>converters\<close> that \<open>for_model\<close> builds from
  \<open>to_field\<close>: a missing key raises \<open>KeyError\<close>, and calling the \<open>None\<close> that
  \<open>to_field\<close> returns for a type without converter raises \<open>TypeError\<close>.
\<close>

definition call_converter :: "(key \<rightharpoonup> (raw \<Rightarrow> conversion) option) \<Rightarrow> key \<Rightarrow> raw \<Rightarrow> conversion" where
  "call_converter converters field value =
     (case converters field of
        None \<Rightarrow> Inl (KeyError field)
      | Some None \<Rightarrow> Inl TypeError
      | Some (Some converter) \<Rightarrow> converter value)"

text \<open>The sink a caller passes at the top level: it records the pair and never raises.\<close>

definition sink :: "(key \<times> issue) list logger" where
  "sink field e logged = Inr (logged @ [(field, e)])"

subsection \<open>The environment of a conversion\<close>

text \<open>
  A field as the converters read it: its type tag, the model it points to, and, for a
  selection, the list of (item, label) pairs of its description. \<open>digits\<close> is the
  pair (precision, scale) of a float field, which no converter reads.
\<close>

record field =
  ftype :: string
  comodel_name :: string
  selection :: "(string \<times> string) list"
  digits :: "(nat \<times> nat) option"

text \<open>
  What the converters call outside this file is a parameter of the conversion: Python's
  \<open>int\<close>, \<open>float\<close> (the parsed float, a binary fraction, as the rational number it
  is) and \<open>str.lower\<close>, the translations of a source term, the two
  \<open>strptime\<close> formats with the conversion of the parsed datetime to UTC, the fields of
  a model, the search of a database id (\<open>None\<close> when the database raises
  \<open>DataError\<close>), the resolution of an external id (\<open>None\<close> when \<open>env.ref\<close> raises
  \<open>ValueError\<close>), \<open>name_search\<close> with operator \<open>=\<close>, and the current import
  module of the context.
\<close>

record env =
  py_int :: "string \<Rightarrow> int option"
  py_float :: "string \<Rightarrow> rat option"
  lower :: "string \<Rightarrow> string"
  get_translations :: "string list \<Rightarrow> string \<Rightarrow> string list"
  is_date :: "string \<Rightarrow> bool"
  datetime_to_utc :: "string \<Rightarrow> string option"
  model_fields :: "string \<Rightarrow> string \<rightharpoonup> field"
  search_id :: "string \<Rightarrow> int \<Rightarrow> bool option"
  ref :: "string \<Rightarrow> int option"
  name_search :: "string \<Rightarrow> string \<Rightarrow> (int \<times> string) list"
  import_current_module :: string

subsection \<open>Scalar converters\<close>

text \<open>
  The scalar converters are written for text. Given the rows of a relational field they
  fail on the first string operation, with an exception that is not a \<open>ValueError\<close>;
  \<open>_str_id\<close> alone has no such operation and hands its argument back.
\<close>

definition str_to_boolean :: "env \<Rightarrow> field \<Rightarrow> raw \<Rightarrow> conversion" where
  "str_to_boolean e field value =
     (case value of
        Rows rs \<Rightarrow> Inl AttributeError
      | Text s \<Rightarrow>
          (let trues = map (lower e) ([''1'', ''true'', ''yes'']
                 @ get_translations e [''code''] ''true''
                 @ get_translations e [''code''] ''yes'');
               falses = map (lower e) ([[], ''0'', ''false'', ''no'']
                 @ get_translations e [''code''] ''false''
                 @ get_translations e [''code''] ''no'')
           in if lower e s \<in> set trues then Inr (PBool True, [])
              else if lower e s \<in> set falses then Inr (PBool False, [])
              else Inr (PBool True, [UnknownBoolean s])))"

definition str_to_integer :: "env \<Rightarrow> field \<Rightarrow> raw \<Rightarrow> conversion" where
  "str_to_integer e field value =
     (case value of
        Rows rs \<Rightarrow> Inl TypeError
      | Text s \<Rightarrow>
          (case py_int e s of
             Some n \<Rightarrow> Inr (PInt n, [])
           | None \<Rightarrow> Inl (ValueError (NotAnInteger s))))"

definition str_to_float :: "env \<Rightarrow> field \<Rightarrow> raw \<Rightarrow> conversion" where
  "str_to_float e field value =
     (case value of
        Rows rs \<Rightarrow> Inl TypeError
      | Text s \<Rightarrow>
          (case py_float e s of
             Some x \<Rightarrow> Inr (PFloat x, [])
           | None \<Rightarrow> Inl (ValueError (NotANumber s))))"

definition str_id :: "env \<Rightarrow> field \<Rightarrow> raw \<Rightarrow> conversion" where
  "str_id e field value = Inr (PRaw value, [])"

definition str_to_date :: "env \<Rightarrow> field \<Rightarrow> raw \<Rightarrow> conversion" where
  "str_to_date e field value =
     (case value of
        Rows rs \<Rightarrow> Inl TypeError
      | Text s \<Rightarrow>
          (if is_date e s then Inr (PRaw value, [])
           else Inl (ValueError (NotADate s))))"

definition str_to_datetime :: "env \<Rightarrow> field \<Rightarrow> raw \<Rightarrow> conversion" where
  "str_to_datetime e field value =
     (case value of
        Rows rs \<Rightarrow> Inl TypeError
      | Text s \<Rightarrow>
          (case datetime_to_utc e s of
             Some utc \<Rightarrow> Inr (PRaw (Text utc), [])
           | None \<Rightarrow> Inl (ValueError (NotADatetime s))))"

text \<open>
  \<open>_str_to_selection\<close>: the first item whose key or whose label, or a translation of
  the label, is the value. Rows are equal to no string, so they match nothing.
\<close>

fun find_selection :: "env \<Rightarrow> (string \<times> string) list \<Rightarrow> string \<Rightarrow> string option" where
  "find_selection e [] s = None"
| "find_selection e ((item, label) # sel) s =
     (let labels = label # get_translations e [''selection'', ''model'', ''code''] label
      in if s = item \<or> s \<in> set labels then Some item else find_selection e sel s)"

definition str_to_selection :: "env \<Rightarrow> field \<Rightarrow> raw \<Rightarrow> conversion" where
  "str_to_selection e field value =
     (case value of
        Rows rs \<Rightarrow> Inl (ValueError (NotInSelection []))
      | Text s \<Rightarrow>
          (case find_selection e (selection field) s of
             Some item \<Rightarrow> Inr (PRaw (Text item), [])
           | None \<Rightarrow> Inl (ValueError (NotInSelection s))))"

subsection \<open>References to existing records\<close>

text \<open>
  \<open>db_id_for\<close>. For a database id, \<open>int(value)\<close> is tried and the text itself is
  searched when it is no integer; the id column is an integer, so that search is the
  \<open>DataError\<close> case. The result is the id, the name of the kind of reference and the
  warnings.
\<close>

definition db_id_for :: "env \<Rightarrow> field \<Rightarrow> key \<Rightarrow> string
    \<Rightarrow> exn + (int \<times> string \<times> warning list)" where
  "db_id_for e field subfield value =
     (if subfield = Some ''.id'' then
        (case (case py_int e value of
                 None \<Rightarrow> None
               | Some tentative_id \<Rightarrow>
                   map_option (\<lambda>found. if found then Some tentative_id else None)
                     (search_id e (comodel_name field) tentative_id)) of
           None \<Rightarrow> Inl (ValueError (InvalidDatabaseId value))
         | Some None \<Rightarrow> Inl (ValueError (NoMatchingRecord ''database id'' value))
         | Some (Some i) \<Rightarrow> Inr (i, ''database id'', []))
      else if subfield = Some ''id'' then
        (let xmlid = (if CHR ''.'' \<in> set value then value
                      else import_current_module e @ ''.'' @ value)
         in case ref e xmlid of
              None \<Rightarrow> Inl (ValueError (NoMatchingRecord ''external id'' value))
            | Some i \<Rightarrow> Inr (i, ''external id'', []))
      else if subfield = None then
        (case name_search e (comodel_name field) value of
           [] \<Rightarrow> Inl (ValueError (NoMatchingRecord ''name'' value))
         | (i, name) # others \<Rightarrow>
             Inr (i, ''name'',
                  (if length ((i, name) # others) > 1
                   then [MultipleMatches (length ((i, name) # others))] else [])))
      else Inl (Exception (UnknownSubfield subfield)))"

text \<open>
  \<open>_referencing_subfield\<close>. \<open>fieldset\<close> is the set of the keys; the last line unpacks
  a set of exactly one element, and raises \<open>ValueError\<close> on the empty set.
\<close>

definition referencing_subfield :: "(key \<times> 'a) list \<Rightarrow> exn + (key \<times> warning list)" where
  "referencing_subfield record =
     (let fieldset = remdups (map fst record)
      in if filter (\<lambda>k. k \<notin> REFERENCING_FIELDS) fieldset \<noteq> [] then
           Inl (ValueError IndirectManyToOne)
         else if length fieldset > 1 then
           Inl (ValueError AmbiguousSpecification)
         else (case fieldset of
                 [subfield] \<Rightarrow> Inr (subfield, [])
               | _ \<Rightarrow> Inl (ValueError UnpackFailed)))"

text \<open>
  \<open>record[subfield]\<close> for a key of the record, as text: \<open>split\<close> and the lookups
  of \<open>db_id_for\<close> are string operations.
\<close>

definition reference_text :: "entries \<Rightarrow> key \<Rightarrow> exn + string" where
  "reference_text record subfield =
     (case map_of record subfield of
        None \<Rightarrow> Inl (KeyError subfield)
      | Some (Text s) \<Rightarrow> Inr s
      | Some (Rows rs) \<Rightarrow> Inl TypeError)"

text \<open>\<open>s.split(',')\<close>: the pieces between the commas; the empty string gives one empty piece.\<close>

fun split_comma :: "string \<Rightarrow> string list" where
  "split_comma [] = [[]]"
| "split_comma (c # cs) =
     (if c = CHR '','' then [] # split_comma cs
      else (case split_comma cs of
              piece # pieces \<Rightarrow> (c # piece) # pieces
            | [] \<Rightarrow> [[c]]))"

text \<open>
  \<open>[record] = values\<close>: a list of one record, else \<open>ValueError\<close>. A text of one
  character unpacks to that character, which has no keys.
\<close>

definition unpack_single :: "raw \<Rightarrow> exn + entries" where
  "unpack_single values =
     (case values of
        Rows [record] \<Rightarrow> Inr record
      | Rows _ \<Rightarrow> Inl (ValueError UnpackFailed)
      | Text [c] \<Rightarrow> Inl AttributeError
      | Text _ \<Rightarrow> Inl (ValueError UnpackFailed))"

definition str_to_many2one :: "env \<Rightarrow> field \<Rightarrow> raw \<Rightarrow> conversion" where
  "str_to_many2one e field values =
     (case unpack_single values of
        Inl x \<Rightarrow> Inl x
      | Inr record \<Rightarrow>
          (case referencing_subfield record of
             Inl x \<Rightarrow> Inl x
           | Inr (subfield, w1) \<Rightarrow>
               (case reference_text record subfield of
                  Inl x \<Rightarrow> Inl x
                | Inr reference \<Rightarrow>
                    (case db_id_for e field subfield reference of
                       Inl x \<Rightarrow> Inl x
                     | Inr (i, field_type, w2) \<Rightarrow> Inr (PInt i, w1 @ w2)))))"

text \<open>The loop of \<open>_str_to_many2many\<close>: the first reference that fails ends it.\<close>

fun resolve_all :: "env \<Rightarrow> field \<Rightarrow> key \<Rightarrow> string list \<Rightarrow> int list \<Rightarrow> warning list
    \<Rightarrow> exn + (int list \<times> warning list)" where
  "resolve_all e field subfield [] ids warnings = Inr (ids, warnings)"
| "resolve_all e field subfield (reference # references) ids warnings =
     (case db_id_for e field subfield reference of
        Inl x \<Rightarrow> Inl x
      | Inr (i, field_type, ws) \<Rightarrow>
          resolve_all e field subfield references (ids @ [i]) (warnings @ ws))"

definition str_to_many2many :: "env \<Rightarrow> field \<Rightarrow> raw \<Rightarrow> conversion" where
  "str_to_many2many e field value =
     (case unpack_single value of
        Inl x \<Rightarrow> Inl x
      | Inr record \<Rightarrow>
          (case referencing_subfield record of
             Inl x \<Rightarrow> Inl x
           | Inr (subfield, warnings) \<Rightarrow>
               (case reference_text record subfield of
                  Inl x \<Rightarrow> Inl x
                | Inr text \<Rightarrow>
                    (case resolve_all e field subfield (split_comma text) [] warnings of
                       Inl x \<Rightarrow> Inl x
                     | Inr (ids, ws) \<Rightarrow> Inr (PCommands [REPLACE_WITH ids], ws)))))"

subsection \<open>One-to-many fields and the converters of a model\<close>

text \<open>
  The logger \<open>_str_to_one2many\<close> hands to the converter of the nested records: a warning
  joins the warnings of the field, anything else is raised.
\<close>

definition nested_log :: "warning list logger" where
  "nested_log field e warnings =
     (case e of
        Warn w \<Rightarrow> Inr (warnings @ [w])
      | Err m \<Rightarrow> Inl (ValueError m))"

text \<open>
  The shorthand of one row that holds only a reference: the row is replaced by one row
  for each piece of the reference.
\<close>

definition expand_single :: "entries list \<Rightarrow> exn + (entries list \<times> warning list)" where
  "expand_single records =
     (case records of
        [record] \<Rightarrow>
          (if exclude_ref_fields record = [] then
             (case referencing_subfield record of
                Inl x \<Rightarrow> Inl x
              | Inr (subfield, ws) \<Rightarrow>
                  (case reference_text record subfield of
                     Inl x \<Rightarrow> Inl x
                   | Inr text \<Rightarrow>
                       Inr (map (\<lambda>item. [(subfield, Text item)]) (split_comma text), ws)))
           else Inr (records, []))
      | _ \<Rightarrow> Inr (records, []))"

text \<open>
  The loop over the records. \<open>conv\<close> stands for \<open>converters[field](value)\<close> of the
  converter \<open>for_model\<close> gives for the target model. \<open>if id\<close> is false for \<open>None\<close> and
  for \<open>0\<close>.
\<close>

fun one2many_records :: "(key \<Rightarrow> raw \<Rightarrow> conversion) \<Rightarrow> env \<Rightarrow> field \<Rightarrow> entries list
    \<Rightarrow> converted command list \<Rightarrow> warning list \<Rightarrow> exn + (converted command list \<times> warning list)" where
  "one2many_records conv e field [] commands warnings = Inr (commands, warnings)"
| "one2many_records conv e field (record # records) commands warnings =
     (case (if only_ref_fields record \<noteq> [] then
              (case referencing_subfield (only_ref_fields record) of
                 Inl x \<Rightarrow> Inl x
               | Inr (subfield, w1) \<Rightarrow>
                   (case reference_text record subfield of
                      Inl x \<Rightarrow> Inl x
                    | Inr reference \<Rightarrow>
                        (case db_id_for e field subfield reference of
                           Inl x \<Rightarrow> Inl x
                         | Inr (i, field_type, w2) \<Rightarrow> Inr (Some i, warnings @ w1 @ w2))))
            else Inr (None, warnings)) of
        Inl x \<Rightarrow> Inl x
      | Inr (id', warnings') \<Rightarrow>
          (case fn conv (exclude_ref_fields record) nested_log [] warnings' of
             Inl x \<Rightarrow> Inl x
           | Inr (writable, warnings'') \<Rightarrow>
               (case id' of
                  Some i \<Rightarrow>
                    (if i \<noteq> 0 then
                       one2many_records conv e field records
                         (commands @ [LINK_TO i, UPDATE i writable]) warnings''
                     else
                       one2many_records conv e field records
                         (commands @ [CREATE writable]) warnings'')
                | None \<Rightarrow>
                    one2many_records conv e field records
                      (commands @ [CREATE writable]) warnings'')))"

text \<open>
  \<open>_str_to_one2many\<close>, for the conversion \<open>conv\<close> of the nested fields. A non-empty
  text in place of the rows has characters for records, which have no items.
\<close>

definition str_to_one2many_with :: "(key \<Rightarrow> raw \<Rightarrow> conversion) \<Rightarrow> env \<Rightarrow> field \<Rightarrow> raw
    \<Rightarrow> conversion" where
  "str_to_one2many_with conv e field value =
     (case value of
        Text s \<Rightarrow> (if s = [] then Inr (PCommands [], []) else Inl AttributeError)
      | Rows records \<Rightarrow>
          (case expand_single records of
             Inl x \<Rightarrow> Inl x
           | Inr (records', warnings) \<Rightarrow>
               (case one2many_records conv e field records' [] warnings of
                  Inl x \<Rightarrow> Inl x
                | Inr (commands, ws) \<Rightarrow> Inr (PCommands commands, ws))))"

text \<open>
  \<open>to_field\<close> looks the method \<open>_<typename>_to_<field.type>\<close> up by name: these are the
  names the class defines.
\<close>

definition has_converter :: "string \<Rightarrow> string \<Rightarrow> bool" where
  "has_converter typename t =
     (typename = ''str'' \<and>
      t \<in> set [''boolean'', ''integer'', ''float'', ''reference'', ''char'', ''text'',
                 ''binary'', ''html'', ''date'', ''datetime'', ''selection'',
                 ''many2one'', ''many2many'', ''one2many''])"

lemma fn_cong [fundef_cong]:
  assumes "record = record'" "logger = logger'" "converted = converted'" "s = s'"
    and "\<And>k v. (k, v) \<in> set record' \<Longrightarrow> conv k v = conv' k v"
  shows "fn conv record logger converted s = fn conv' record' logger' converted' s'"
  unfolding assms(1-4) using assms(5)
proof (induction record' arbitrary: converted' s')
  case Nil
  show ?case by simp
next
  case (Cons entry rest)
  obtain f x where entry: "entry = (f, x)" by (cases entry)
  have here: "conv f x = conv' f x"
    using Cons.prems entry by simp
  have later: "\<And>c t. fn conv rest logger' c t = fn conv' rest logger' c t"
    using Cons.IH Cons.prems by simp
  show ?case
    unfolding entry fn.simps here later ..
qed

lemma referencing_subfield_in:
  assumes "referencing_subfield record = Inr (subfield, ws)"
  shows "subfield \<in> REFERENCING_FIELDS"
proof -
  let ?fs = "remdups (map fst record)"
  have none: "filter (\<lambda>k. k \<notin> REFERENCING_FIELDS) ?fs = []"
    using assms by (auto simp: referencing_subfield_def Let_def split: if_splits)
  have one: "?fs = [subfield]"
    using assms by (auto simp: referencing_subfield_def Let_def split: if_splits list.splits)
  have "subfield \<in> set ?fs" unfolding one by simp
  with none show ?thesis
    by (metis (mono_tags, lifting) filter_empty_conv)
qed

lemma one2many_records_cong:
  assumes "\<And>record k v. record \<in> set records \<Longrightarrow> (k, v) \<in> set (exclude_ref_fields record)
      \<Longrightarrow> conv k v = conv' k v"
  shows "one2many_records conv e field records commands warnings
       = one2many_records conv' e field records commands warnings"
  using assms
proof (induction records arbitrary: commands warnings)
  case Nil
  show ?case by simp
next
  case (Cons r rs)
  have here: "\<And>ws. fn conv (exclude_ref_fields r) nested_log [] ws
                  = fn conv' (exclude_ref_fields r) nested_log [] ws"
    by (rule fn_cong) (use Cons.prems in auto)
  have later: "\<And>c ws. one2many_records conv e field rs c ws
                     = one2many_records conv' e field rs c ws"
    by (rule Cons.IH) (use Cons.prems in auto)
  show ?case
    unfolding one2many_records.simps here later ..
qed

lemma expand_single_cases:
  assumes "expand_single records = Inr (records', ws)"
  shows "records' = records \<or> (\<exists>(r::entries) subfield t. referencing_subfield r = Inr (subfield, ws)
     \<and> records' = map (\<lambda>item. [(subfield, Text item)]) (split_comma t))"
proof (cases "\<exists>r. records = [r] \<and> exclude_ref_fields r = []")
  case False
  then have "expand_single records = Inr (records, [])"
    by (auto simp: expand_single_def split: list.splits)
  with assms show ?thesis by simp
next
  case True
  then obtain r where r: "records = [r]" "exclude_ref_fields r = []" by blast
  show ?thesis
  proof (cases "referencing_subfield r")
    case (Inl x)
    with assms r show ?thesis by (simp add: expand_single_def)
  next
    case (Inr p)
    obtain subfield w where p: "p = (subfield, w)" by (cases p)
    show ?thesis
    proof (cases "reference_text r subfield")
      case (Inl x)
      with assms r Inr p show ?thesis by (simp add: expand_single_def)
    next
      case t: (Inr t)
      with assms r Inr p
      have recs: "records' = map (\<lambda>item. [(subfield, Text item)]) (split_comma t)"
        and "ws = w"
        by (simp_all add: expand_single_def)
      with Inr p have sub: "referencing_subfield r = Inr (subfield, ws)" by simp
      show ?thesis
        by (intro disjI2 exI[of _ r] exI[of _ subfield] exI[of _ t] conjI sub recs)
    qed
  qed
qed

lemma expand_single_entries:
  assumes "expand_single records = Inr (records', ws)"
    and "record' \<in> set records'" "(k, v) \<in> set (exclude_ref_fields record')"
  shows "\<exists>record \<in> set records. (k, v) \<in> set record"
proof (cases "records' = records")
  case True
  with assms(2,3) show ?thesis by (auto simp: exclude_ref_fields_def)
next
  case False
  with expand_single_cases [OF assms(1)] obtain r :: entries and subfield t where
      sub: "referencing_subfield r = Inr (subfield, ws)"
      and recs: "records' = map (\<lambda>item. [(subfield, Text item)]) (split_comma t)"
    by blast
  have "subfield \<in> REFERENCING_FIELDS" using sub by (rule referencing_subfield_in)
  with recs assms(2) have "exclude_ref_fields record' = []"
    by (auto simp: exclude_ref_fields_def)
  with assms(3) show ?thesis by simp
qed

lemma str_to_one2many_with_cong [fundef_cong]:
  assumes "value = value'" "e = e'" "field = field'"
    and "\<And>records record k v. value' = Rows records \<Longrightarrow> record \<in> set records
      \<Longrightarrow> (k, v) \<in> set record \<Longrightarrow> conv k v = conv' k v"
  shows "str_to_one2many_with conv e field value = str_to_one2many_with conv' e' field' value'"
proof (cases value')
  case (Text s)
  then show ?thesis using assms(1-3) by (simp add: str_to_one2many_with_def)
next
  case (Rows records)
  have "one2many_records conv e' field' records' [] ws
      = one2many_records conv' e' field' records' [] ws"
    if "expand_single records = Inr (records', ws)" for records' ws
  proof (rule one2many_records_cong)
    fix r' k v
    assume "r' \<in> set records'" "(k, v) \<in> set (exclude_ref_fields r')"
    with that obtain r where "r \<in> set records" "(k, v) \<in> set r"
      using expand_single_entries by blast
    then show "conv k v = conv' k v" using assms(4) Rows by blast
  qed
  then show ?thesis
    using assms(1-3) Rows by (auto simp: str_to_one2many_with_def split: sum.splits)
qed

lemma size_nested_value:
  assumes "record \<in> set records" "(k, v) \<in> set record"
  shows "size v < size (Rows records)"
proof -
  have "size v \<le> size_prod (\<lambda>_. 0) size (k, v)" by simp
  also have "\<dots> \<le> size_list (size_prod (\<lambda>_. 0) size) record"
    using assms(2) by (simp add: size_list_estimation')
  also have "\<dots> \<le> size_list (size_list (size_prod (\<lambda>_. 0) size)) records"
    using assms(1) by (simp add: size_list_estimation')
  finally show ?thesis by simp
qed

text \<open>
  The converter \<open>to_field\<close> returns for a field with one: the method of the field's
  type, applied to the field. For a one-to-many field, the nested records go through
  \<open>for_model\<close> of the target model, whose dict \<open>converters\<close> holds, for each field of
  that model, the result of \<open>to_field\<close>.
\<close>

function convert :: "env \<Rightarrow> field \<Rightarrow> raw \<Rightarrow> conversion" where
  "convert e field value =
     (if ftype field = ''boolean'' then str_to_boolean e field value
      else if ftype field = ''integer'' then str_to_integer e field value
      else if ftype field = ''float'' then str_to_float e field value
      else if ftype field \<in> {''reference'', ''char'', ''text'', ''binary'', ''html''}
        then str_id e field value
      else if ftype field = ''date'' then str_to_date e field value
      else if ftype field = ''datetime'' then str_to_datetime e field value
      else if ftype field = ''selection'' then str_to_selection e field value
      else if ftype field = ''many2one'' then str_to_many2one e field value
      else if ftype field = ''many2many'' then str_to_many2many e field value
      else if ftype field = ''one2many'' then
        str_to_one2many_with
          (\<lambda>k v. case k of
                    None \<Rightarrow> Inl (KeyError k)
                  | Some name \<Rightarrow>
                      (case model_fields e (comodel_name field) name of
                         None \<Rightarrow> Inl (KeyError k)
                       | Some f \<Rightarrow>
                           if has_converter ''str'' (ftype f) then convert e f v
                           else Inl TypeError))
          e field value
      else Inl AttributeError)"
  by pat_completeness auto
termination
  by (relation "measure (\<lambda>(e, field, value). size value)")
     (auto simp del: raw.size intro: size_nested_value)

definition to_field :: "env \<Rightarrow> string \<Rightarrow> field \<Rightarrow> string \<Rightarrow> (raw \<Rightarrow> conversion) option" where
  "to_field e model field typename =
     (if has_converter typename (ftype field) then Some (convert e field) else None)"

definition converters :: "env \<Rightarrow> string \<Rightarrow> key \<rightharpoonup> (raw \<Rightarrow> conversion) option" where
  "converters e model k =
     (case k of
        None \<Rightarrow> None
      | Some name \<Rightarrow> map_option (\<lambda>field. to_field e model field ''str'') (model_fields e model name))"

definition for_model :: "env \<Rightarrow> string \<Rightarrow> entries \<Rightarrow> 's logger \<Rightarrow> 's \<Rightarrow> exn + (converted \<times> 's)" where
  "for_model e model record logger s = fn (call_converter (converters e model)) record logger [] s"

definition str_to_one2many :: "env \<Rightarrow> field \<Rightarrow> raw \<Rightarrow> conversion" where
  "str_to_one2many e field records =
     str_to_one2many_with (call_converter (converters e (comodel_name field))) e field records"

subsection \<open>The outcome of one entry\<close>


subsection \<open>A concrete environment\<close>

text \<open>
  A small model and environment on which the theorems below are instantiated. The
  float parser knows two texts; its values are the doubles Python parses them to.
\<close>

definition partner_fields :: "string \<rightharpoonup> field" where
  "partner_fields =
     [''id'' \<mapsto> \<lparr>ftype = ''integer'', comodel_name = [], selection = [], digits = None\<rparr>,
      ''name'' \<mapsto> \<lparr>ftype = ''char'', comodel_name = [], selection = [], digits = None\<rparr>,
      ''credit'' \<mapsto> \<lparr>ftype = ''float'', comodel_name = [], selection = [], digits = None\<rparr>,
      ''price'' \<mapsto> \<lparr>ftype = ''float'', comodel_name = [], selection = [], digits = Some (16, 2)\<rparr>,
      ''payload'' \<mapsto> \<lparr>ftype = ''serialized'', comodel_name = [], selection = [], digits = None\<rparr>,
      ''child_ids'' \<mapsto> \<lparr>ftype = ''one2many'', comodel_name = ''res.partner'', selection = [], digits = None\<rparr>,
      ''category_id'' \<mapsto> \<lparr>ftype = ''many2many'', comodel_name = ''res.partner.category'', selection = [], digits = None\<rparr>]"

definition demo_env :: env where
  "demo_env =
     \<lparr>py_int = (\<lambda>s. if s = ''42'' then Some 42 else None),
      py_float = (\<lambda>s. if s = ''12.345'' then Some (6949617174986097 / 562949953421312)
                        else if s = ''12.35'' then Some (6952431924753203 / 562949953421312)
                        else None),
      lower = (\<lambda>s. s),
      get_translations = (\<lambda>types src. []),
      is_date = (\<lambda>s. s = ''2012-12-31''),
      datetime_to_utc = (\<lambda>s. if s = ''2012-12-31 23:59:59'' then Some s else None),
      model_fields = (\<lambda>model. if model = ''res.partner'' then partner_fields else Map.empty),
      search_id = (\<lambda>model i. Some (i = 42)),
      ref = (\<lambda>xmlid. if xmlid = ''base.ref1'' then Some 42
                   else if xmlid = ''base.ref3'' then Some 43 else None),
      name_search = (\<lambda>model name. []),
      import_current_module = ''base''\<rparr>"

section \<open>Relational columns (openerp/osv/fields.py)\<close>

subsection \<open>The table of the target model\<close>

text \<open>
  A row of the target model is a dict from column names to cells, and so is the values
  dict of a \<open>CREATE\<close> or \<open>UPDATE\<close> command. The table is the list of its rows with
  their ids.
\<close>

datatype cell = Null | Num int | Str string

type_synonym row = "(string \<times> cell) list"

type_synonym table = "(int \<times> row) list"

text \<open>
  Modelled from the spec: the operations of the target model that the columns call
  (\<open>create\<close>, \<open>write\<close>, \<open>unlink\<close>, \<open>search\<close>, reading a field of a browsed
  record), which are the storage engine of section 6 and are not in the source files at
  hand. \<open>write\<close> updates the given columns of the given rows and fails when a row is
  missing; \<open>unlink\<close> removes the rows; \<open>create\<close> adds a row under an id the table
  does not hold; \<open>search\<close> gives the ids of the rows a condition selects; reading a
  field of a missing record fails. Access rules and recomputation of stored fields are
  left out.
\<close>

definition dict_update :: "row \<Rightarrow> row \<Rightarrow> row" where
  "dict_update row vals = fold (\<lambda>(k, v) r. dict_set r k v) vals row"

definition orm_write :: "int list \<Rightarrow> row \<Rightarrow> table \<Rightarrow> exn + table" where
  "orm_write ids vals t =
     (if set ids \<subseteq> fst ` set t
      then Inr (map (\<lambda>(k, row). if k \<in> set ids then (k, dict_update row vals) else (k, row)) t)
      else Inl MissingError)"

definition orm_unlink :: "int list \<Rightarrow> table \<Rightarrow> table" where
  "orm_unlink ids t = filter (\<lambda>(k, row). k \<notin> set ids) t"

definition orm_create :: "row \<Rightarrow> table \<Rightarrow> int \<times> table" where
  "orm_create vals t = (let id_new = fold max (map fst t) 0 + 1 in (id_new, t @ [(id_new, vals)]))"

definition orm_search :: "(int \<Rightarrow> row \<Rightarrow> bool) \<Rightarrow> table \<Rightarrow> int list" where
  "orm_search cond t = map fst (filter (\<lambda>(k, row). cond k row) t)"

definition column :: "row \<Rightarrow> string \<Rightarrow> cell" where
  "column row name = (case map_of row name of None \<Rightarrow> Null | Some c \<Rightarrow> c)"

definition orm_read :: "table \<Rightarrow> int \<Rightarrow> string \<Rightarrow> exn + cell" where
  "orm_read t i name =
     (case map_of t i of
        None \<Rightarrow> Inl MissingError
      | Some row \<Rightarrow> Inr (column row name))"

text \<open>
  \<open>int(rec[self._fields_id])\<close>: the id held by a many-to-one column, and \<open>0\<close> for an
  empty one.
\<close>

fun cell_int :: "cell \<Rightarrow> int" where
  "cell_int (Num n) = n"
| "cell_int Null = 0"
| "cell_int (Str s) = 0"

subsection \<open>\<open>one2many.set\<close>\<close>

text \<open>
  The column holds the name \<open>_fields_id\<close> of the inverse many-to-one column and its
  static domain, here the condition the domain puts on a row. \<open>obj_fields\<close> stands for
  \<open>obj._fields\<close> of the target model: for each field name, the \<open>ondelete\<close> of the
  field.
\<close>

record one2many =
  o2m_fields_id :: string
  o2m_domain :: "int \<Rightarrow> row \<Rightarrow> bool"

text \<open>
  One pass of the loop of \<open>one2many.set\<close> for the record \<open>id\<close>, by the tag of the
  command: 0 create, 1 update, 2 delete, 3 forget, 4 link, 5 delete all, 6 replace.
  The state is the table of the target model; the list of stored values to recompute that
  the source returns is left out.
\<close>

fun one2many_act :: "one2many \<Rightarrow> (string \<rightharpoonup> string option) \<Rightarrow> int \<Rightarrow> row command \<Rightarrow> table
    \<Rightarrow> exn + table" where
  "one2many_act col obj_fields i (CREATE vals) t =
     Inr (snd (orm_create (dict_set vals (o2m_fields_id col) (Num i)) t))"
| "one2many_act col obj_fields i (UPDATE k vals) t = orm_write [k] vals t"
| "one2many_act col obj_fields i (DELETE k) t = Inr (orm_unlink [k] t)"
| "one2many_act col obj_fields i (FORGET k) t =
     (case obj_fields (o2m_fields_id col) of
        None \<Rightarrow> Inl AssertionError
      | Some ondelete \<Rightarrow>
          if ondelete = Some ''cascade'' then Inr (orm_unlink [k] t)
          else Inr (map (\<lambda>(k', row). if k' = k then (k', dict_set row (o2m_fields_id col) Null)
                                       else (k', row)) t))"
| "one2many_act col obj_fields i (LINK_TO k) t =
     (case orm_read t k (o2m_fields_id col) of
        Inl x \<Rightarrow> Inl x
      | Inr c \<Rightarrow>
          if cell_int c \<noteq> i then orm_write [k] [(o2m_fields_id col, Num i)] t
          else Inr t)"
| "one2many_act col obj_fields i DELETE_ALL t =
     (case obj_fields (o2m_fields_id col) of
        None \<Rightarrow> Inl AssertionError
      | Some ondelete \<Rightarrow>
          (let ids_to_unlink =
                 orm_search (\<lambda>k row. column row (o2m_fields_id col) = Num i \<and> o2m_domain col k row) t
           in if ondelete = Some ''cascade'' then Inr (orm_unlink ids_to_unlink t)
              else orm_write ids_to_unlink [(o2m_fields_id col, Null)] t))"
| "one2many_act col obj_fields i (REPLACE_WITH ids) t =
     (case orm_write ids [(o2m_fields_id col, Num i)] t of
        Inl x \<Rightarrow> Inl x
      | Inr t' \<Rightarrow>
          (let ids2 = (if ids = [] then [0] else ids);
               ids3 = orm_search (\<lambda>k row. column row (o2m_fields_id col) = Num i \<and> k \<notin> set ids2) t'
           in orm_write ids3 [(o2m_fields_id col, Null)] t'))"

fun one2many_acts :: "one2many \<Rightarrow> (string \<rightharpoonup> string option) \<Rightarrow> int \<Rightarrow> row command list \<Rightarrow> table
    \<Rightarrow> exn + table" where
  "one2many_acts col obj_fields i [] t = Inr t"
| "one2many_acts col obj_fields i (act # acts) t =
     (case one2many_act col obj_fields i act t of
        Inl x \<Rightarrow> Inl x
      | Inr t' \<Rightarrow> one2many_acts col obj_fields i acts t')"

text \<open>\<open>one2many.set\<close>: nothing is done for an empty list of commands.\<close>

definition one2many_set :: "one2many \<Rightarrow> (string \<rightharpoonup> string option) \<Rightarrow> int \<Rightarrow> row command list
    \<Rightarrow> table \<Rightarrow> exn + table" where
  "one2many_set col obj_fields i values t =
     (if values = [] then Inr t else one2many_acts col obj_fields i values t)"

text \<open>
  The link set of the record \<open>i\<close>: the ids of the target rows whose inverse column holds
  \<open>i\<close>.
\<close>

definition one2many_links :: "one2many \<Rightarrow> int \<Rightarrow> table \<Rightarrow> int list" where
  "one2many_links col i t = orm_search (\<lambda>k row. column row (o2m_fields_id col) = Num i) t"

subsection \<open>\<open>many2many.set\<close>\<close>

text \<open>
  The relation table is the list of its rows, pairs of the source id (column \<open>id1\<close>)
  and the target id (column \<open>id2\<close>). The state of the column is the relation table and
  the table of the target model.
\<close>

type_synonym relation = "(int \<times> int) list"

text \<open>
  Modelled from the spec: \<open>cr.split_for_in_conditions\<close> of the cursor, which is not in
  the source files at hand, cuts the ids into pieces of at most \<open>IN_MAX\<close> ids, a
  positive constant of the cursor.
\<close>

definition IN_MAX :: nat where
  "IN_MAX = 1000"

function split_for_in_conditions :: "nat \<Rightarrow> 'a list \<Rightarrow> 'a list list" where
  "split_for_in_conditions n ids =
     (if n = 0 \<or> ids = [] then []
      else take n ids # split_for_in_conditions n (drop n ids))"
  by pat_completeness auto
termination
  by (relation "measure (\<lambda>(n, ids). length ids)") auto

declare split_for_in_conditions.simps [simp del]

text \<open>
  The statement of \<open>link\<close>:
  \<open>INSERT INTO rel (id1, id2) (SELECT %s, unnest(%s)) EXCEPT (SELECT id1, id2 FROM rel WHERE id1=%s)\<close>.
  \<open>EXCEPT\<close> gives each pair once, and none that the table holds.
\<close>

definition insert_except :: "int \<Rightarrow> int list \<Rightarrow> relation \<Rightarrow> relation" where
  "insert_except i sub_ids rel =
     rel @ filter (\<lambda>p. p \<notin> set rel) (remdups (map (Pair i) sub_ids))"

definition link :: "int \<Rightarrow> int list \<Rightarrow> relation \<Rightarrow> relation" where
  "link i ids rel = fold (insert_except i) (split_for_in_conditions IN_MAX ids) rel"

text \<open>
  The statement of \<open>unlink_all\<close>:
  \<open>DELETE FROM rel USING tables WHERE rel.id1=%s AND rel.id2=table.id AND cond\<close>, where
  \<open>cond\<close> is what the access rules of the user give for the target model, here the
  condition \<open>rule\<close> on a target row (true everywhere when there is no rule).
\<close>

definition unlink_all :: "(int \<Rightarrow> row \<Rightarrow> bool) \<Rightarrow> int \<Rightarrow> table \<Rightarrow> relation \<Rightarrow> relation" where
  "unlink_all rule i t rel =
     filter (\<lambda>(a, b). \<not> (a = i \<and> (case map_of t b of None \<Rightarrow> False | Some row \<Rightarrow> rule b row))) rel"

text \<open>
  One pass of the loop of \<open>many2many.set\<close>. Deleting a target row (tag 2) also deletes
  its pairs, by the \<open>ondelete\<close> of the relation table that the comment above the class
  states. The source skips a command that is no list or tuple or is empty; the
  commands here are the seven tuples.
\<close>

fun many2many_act :: "(int \<Rightarrow> row \<Rightarrow> bool) \<Rightarrow> int \<Rightarrow> row command \<Rightarrow> relation \<times> table
    \<Rightarrow> exn + (relation \<times> table)" where
  "many2many_act rule i (CREATE vals) (rel, t) =
     (let (idnew, t') = orm_create vals t in Inr (rel @ [(i, idnew)], t'))"
| "many2many_act rule i (UPDATE k vals) (rel, t) =
     (case orm_write [k] vals t of Inl x \<Rightarrow> Inl x | Inr t' \<Rightarrow> Inr (rel, t'))"
| "many2many_act rule i (DELETE k) (rel, t) =
     Inr (filter (\<lambda>(a, b). b \<noteq> k) rel, orm_unlink [k] t)"
| "many2many_act rule i (FORGET k) (rel, t) =
     Inr (filter (\<lambda>(a, b). \<not> (a = i \<and> b = k)) rel, t)"
| "many2many_act rule i (LINK_TO k) (rel, t) = Inr (link i [k] rel, t)"
| "many2many_act rule i DELETE_ALL (rel, t) = Inr (unlink_all rule i t rel, t)"
| "many2many_act rule i (REPLACE_WITH ids) (rel, t) =
     Inr (link i ids (unlink_all rule i t rel), t)"

fun many2many_acts :: "(int \<Rightarrow> row \<Rightarrow> bool) \<Rightarrow> int \<Rightarrow> row command list \<Rightarrow> relation \<times> table
    \<Rightarrow> exn + (relation \<times> table)" where
  "many2many_acts rule i [] s = Inr s"
| "many2many_acts rule i (act # acts) s =
     (case many2many_act rule i act s of
        Inl x \<Rightarrow> Inl x
      | Inr s' \<Rightarrow> many2many_acts rule i acts s')"

definition many2many_set :: "(int \<Rightarrow> row \<Rightarrow> bool) \<Rightarrow> int \<Rightarrow> row command list \<Rightarrow> relation \<times> table
    \<Rightarrow> exn + (relation \<times> table)" where
  "many2many_set rule i values s =
     (if values = [] then Inr s else many2many_acts rule i values s)"

text \<open>The link set of the record \<open>i\<close>: the targets of its pairs.\<close>

definition many2many_links :: "int \<Rightarrow> relation \<Rightarrow> int list" where
  "many2many_links i rel = map snd (filter (\<lambda>(a, b). a = i) rel)"

text \<open>A table with each row changed by a function of its id and its content.\<close>

definition rows :: "(int \<Rightarrow> row \<Rightarrow> row) \<Rightarrow> table \<Rightarrow> table" where
  "rows f t = map (\<lambda>(k, row). (k, f k row)) t"

subsection \<open>A concrete target table\<close>

text \<open>
  Three target rows with the inverse column \<open>parent_id\<close>: rows 5 and 7 point to the
  record 1, row 6 to none. The column has no domain; the inverse field is declared once
  with \<open>ondelete\<close> \<open>set null\<close> and once with \<open>cascade\<close>.
\<close>

definition demo_column :: one2many where
  "demo_column = \<lparr>o2m_fields_id = ''parent_id'', o2m_domain = (\<lambda>k row. True)\<rparr>"

definition demo_table :: table where
  "demo_table =
     [(5, [(''parent_id'', Num 1)]), (6, [(''parent_id'', Null)]), (7, [(''parent_id'', Num 1)])]"

definition set_null_fields :: "string \<rightharpoonup> string option" where
  "set_null_fields = [''parent_id'' \<mapsto> Some ''set null'']"

definition cascade_fields :: "string \<rightharpoonup> string option" where
  "cascade_fields = [''parent_id'' \<mapsto> Some ''cascade'']"

section \<open>Column descriptors (openerp/osv/fields.py)\<close>

subsection \<open>Python values\<close>

text \<open>
  The values of the attributes of a column: \<open>None\<close>, booleans, integers, strings,
  lists, tuples and dicts with string keys. A dict is the list of its items, each key
  once.
\<close>

datatype pyval =
    VNone
  | VBool bool
  | VInt int
  | VStr string
  | VList "pyval list"
  | VTuple "pyval list"
  | VDict "(string \<times> pyval) list"






subsection \<open>The base class \<open>_column\<close>\<close>

text \<open>
  An instance has the slots of \<open>__slots__\<close>; \<open>_args\<close> holds the attributes that are
  no slots.
\<close>

record column =
  col_copy :: pyval
  col_string :: pyval
  col_help :: pyval
  col_required :: pyval
  col_readonly :: pyval
  col_domain :: pyval
  col_context :: pyval
  col_states :: pyval
  col_priority :: pyval
  col_change_default :: pyval
  col_size :: pyval
  col_ondelete :: pyval
  col_translate :: pyval
  col_select :: pyval
  col_manual :: pyval
  col_write :: pyval
  col_read :: pyval
  col_selectable :: pyval
  col_group_operator :: pyval
  col_groups :: pyval
  col_deprecated :: pyval
  col_args :: "(string \<times> pyval) list"
  col_prefetch :: pyval










subsection \<open>\<open>new\<close>\<close>



subsection \<open>Concrete columns\<close>



section \<open>The float column (openerp/osv/fields.py)\<close>

text \<open>
  A float is the rational number it stands for. What \<open>_symbol_set_float\<close> returns is
  the float itself, or the text \<open>float_repr\<close> gives: a decimal with a fixed number of
  digits after the point, here the integer made of its digits and that number.
\<close>

record fixed =
  fixed_digits :: int
  fixed_scale :: nat

datatype encoded = AsFloat rat | AsText fixed

definition fixed_value :: "fixed \<Rightarrow> rat" where
  "fixed_value d = of_int (fixed_digits d) / 10 ^ fixed_scale d"

text \<open>
  Modelled from the spec: \<open>float_round\<close> and \<open>float_repr\<close> of \<open>openerp.tools\<close>, which
  are not in the source files at hand. The first rounds to the given number of decimal
  digits, a half away from zero; the second writes a number with exactly that number of
  decimal digits. Both are taken on the exact value: the error of binary floating-point
  arithmetic is left out.
\<close>

definition float_round :: "rat \<Rightarrow> nat \<Rightarrow> rat" where
  "float_round x precision_digits =
     sgn x * of_int \<lfloor>\<bar>x\<bar> * 10 ^ precision_digits + 1 / 2\<rfloor> / 10 ^ precision_digits"

definition float_repr :: "rat \<Rightarrow> nat \<Rightarrow> fixed" where
  "float_repr x precision_digits =
     \<lparr>fixed_digits = \<lfloor>x * 10 ^ precision_digits + 1 / 2\<rfloor>, fixed_scale = precision_digits\<rparr>"

text \<open>
  \<open>_symbol_set_float\<close> for a column whose \<open>digits\<close> are \<open>dg\<close>: \<open>x or 0.0\<close> is \<open>0.0\<close>
  for \<open>None\<close> and \<open>False\<close>; with digits (precision, scale) the result is rounded to the
  scale and written at the scale.
\<close>

definition symbol_set_float :: "(nat \<times> nat) option \<Rightarrow> rat option \<Rightarrow> encoded" where
  "symbol_set_float dg x =
     (let result = (case x of None \<Rightarrow> 0 | Some v \<Rightarrow> v)
      in case dg of
           None \<Rightarrow> AsFloat result
         | Some (precision, scale) \<Rightarrow> AsText (float_repr (float_round result scale) scale))"

section \<open>Properties of the import converter\<close>

subsection \<open>The converter loop\<close>

lemma log_warnings_sink: "log_warnings sink f ws l = (None, l @ map (\<lambda>w. (f, Warn w)) ws)"
  by (induction ws arbitrary: l) (auto simp: sink_def)

lemma map_fst_dict_set:
  "map fst (dict_set d k v) = (if k \<in> fst ` set d then map fst d else map fst d @ [k])"
  by (induction d) (simp, force)

lemma keys_dict_set: "fst ` set (dict_set d k v) = insert k (fst ` set d)"
proof -
  have "set (map fst (dict_set d k v)) = insert k (set (map fst d))"
    unfolding map_fst_dict_set by auto
  then show ?thesis by simp
qed

lemma map_of_dict_set: "map_of (dict_set d k v) = (map_of d)(k \<mapsto> v)"
  by (induction d) auto

lemma fn_sink_Cons:
  "fn conv ((f, v) # rest) sink c l =
     (if f \<in> REFERENCING_FIELDS then fn conv rest sink c l
      else if falsy v then fn conv rest sink (dict_set c f PFalse) l
      else (case conv f v of
              Inr (x, ws) \<Rightarrow> fn conv rest sink (dict_set c f x) (l @ map (\<lambda>w. (f, Warn w)) ws)
            | Inl (ValueError m) \<Rightarrow> fn conv rest sink c (l @ [(f, Err m)])
            | Inl x \<Rightarrow> Inl x))"
  by (simp add: log_warnings_sink sink_def REFERENCING_FIELDS_def split: sum.splits exn.splits prod.splits)

lemma fn_Cons:
  "fn conv ((field, x) # rest) logger converted s =
     (if field \<in> REFERENCING_FIELDS then fn conv rest logger converted s
      else if falsy x then fn conv rest logger (dict_set converted field PFalse) s
      else
        (case conv field x of
           Inr (v, ws) \<Rightarrow>
             (case log_warnings logger field ws s of
                (None, s') \<Rightarrow> fn conv rest logger (dict_set converted field v) s'
              | (Some (ValueError m), s') \<Rightarrow>
                  (case logger field (Err m) s' of
                     Inl e \<Rightarrow> Inl e
                   | Inr s'' \<Rightarrow> fn conv rest logger (dict_set converted field v) s'')
              | (Some e, s') \<Rightarrow> Inl e)
         | Inl (ValueError m) \<Rightarrow>
             (case logger field (Err m) s of
                Inl e \<Rightarrow> Inl e
              | Inr s' \<Rightarrow> fn conv rest logger converted s')
         | Inl e \<Rightarrow> Inl e))"
  unfolding fn.simps REFERENCING_FIELDS_def ..

lemma fn_skips_reference_keys:
  "fn conv record logger c s =
   fn (\<lambda>k. if k \<in> REFERENCING_FIELDS then other k else conv k) (exclude_ref_fields record) logger c s"
proof (induction "record" arbitrary: c s)
  case Nil
  show ?case by (simp add: exclude_ref_fields_def)
next
  case (Cons entry rest)
  obtain f v where entry: "entry = (f, v)" by (cases entry)
  show ?case
  proof (cases "f \<in> REFERENCING_FIELDS")
    case True
    then show ?thesis
      unfolding entry using Cons.IH by (simp add: exclude_ref_fields_def fn_Cons del: fn.simps)
  next
    case False
    then have ex: "exclude_ref_fields ((f, v) # rest) = (f, v) # exclude_ref_fields rest"
      by (simp add: exclude_ref_fields_def)
    show ?thesis
      unfolding entry ex fn_Cons Cons.IH using False by simp
  qed
qed

lemma fn_sink_keys:
  assumes "fn conv record sink c l = Inr (c', l')"
  shows "fst ` set c' \<subseteq> fst ` set c \<union> (fst ` set record - REFERENCING_FIELDS)
       \<and> fst ` set l' \<subseteq> fst ` set l \<union> (fst ` set record - REFERENCING_FIELDS)"
  using assms
proof (induction "record" arbitrary: c l)
  case Nil
  then show ?case by simp
next
  case (Cons entry rest)
  obtain f v where entry: "entry = (f, v)" by (cases entry)
  have IH: "fst ` set c' \<subseteq> fst ` set c1 \<union> (fst ` set rest - REFERENCING_FIELDS)
       \<and> fst ` set l' \<subseteq> fst ` set l1 \<union> (fst ` set rest - REFERENCING_FIELDS)"
    if "fn conv rest sink c1 l1 = Inr (c', l')" for c1 l1
    using Cons.IH that by blast
  show ?case
  proof (cases "f \<in> REFERENCING_FIELDS")
    case True
    with Cons.prems have "fn conv rest sink c l = Inr (c', l')"
      unfolding entry fn_sink_Cons by simp
    from IH [OF this] show ?thesis unfolding entry by auto
  next
    case notref: False
    show ?thesis
    proof (cases "falsy v")
      case True
      with Cons.prems notref have "fn conv rest sink (dict_set c f PFalse) l = Inr (c', l')"
        unfolding entry fn_sink_Cons by simp
      from IH [OF this] notref show ?thesis unfolding entry by (auto simp: keys_dict_set)
    next
      case False
      show ?thesis
      proof (cases "conv f v")
        case (Inr p)
        obtain x ws where p: "p = (x, ws)" by (cases p)
        from Cons.prems notref False Inr p
        have "fn conv rest sink (dict_set c f x) (l @ map (\<lambda>w. (f, Warn w)) ws) = Inr (c', l')"
          unfolding entry fn_sink_Cons by simp
        from IH [OF this] notref show ?thesis
          unfolding entry by (auto simp: keys_dict_set image_Un)
      next
        case (Inl x)
        with Cons.prems notref False obtain m where m: "x = ValueError m"
          unfolding entry fn_sink_Cons by (cases x) auto
        from Cons.prems notref False Inl m
        have "fn conv rest sink c (l @ [(f, Err m)]) = Inr (c', l')"
          unfolding entry fn_sink_Cons by simp
        from IH [OF this] notref show ?thesis
          unfolding entry by (auto simp: image_Un)
      qed
    qed
  qed
qed

declare fn.simps(2) [simp del]





text \<open>
  The converter of a one-to-many field is \<open>_str_to_one2many\<close> with the converters
  \<open>for_model\<close> builds for the target model.
\<close>

lemma convert_one2many:
  assumes "ftype field = ''one2many''"
  shows "convert e field x = str_to_one2many e field x"
proof -
  have "(\<lambda>k v. case k of
                None \<Rightarrow> Inl (KeyError k)
              | Some name \<Rightarrow>
                  (case model_fields e (comodel_name field) name of
                     None \<Rightarrow> Inl (KeyError k)
                   | Some f \<Rightarrow>
                       if has_converter ''str'' (ftype f) then convert e f v
                       else Inl TypeError))
      = call_converter (converters e (comodel_name field))"
    by (intro ext)
       (auto simp: call_converter_def converters_def to_field_def simp del: convert.simps
             split: option.splits)
  with assms show ?thesis
    by (subst convert.simps) (simp add: str_to_one2many_def del: convert.simps)
qed

text \<open>The equations that evaluate a conversion in the concrete environment.\<close>

lemmas demo_eval =
  for_model_def call_converter_def converters_def to_field_def has_converter_def
  demo_env_def partner_fields_def fn.simps str_id_def str_to_float_def str_to_integer_def
  str_to_one2many_def str_to_one2many_with_def str_to_many2many_def str_to_many2one_def
  expand_single_def unpack_single_def referencing_subfield_def reference_text_def
  exclude_ref_fields_def only_ref_fields_def REFERENCING_FIELDS_def db_id_for_def
  nested_log_def sink_def

text \<open>
  C10. For every input record, the converter that \<open>for_model\<close> returns ignores each
  top-level entry whose key is \<open>None\<close>, \<open>'id'\<close> or \<open>'.id'\<close>: the run is the run over
  the record without these entries, whatever a converter for these keys would do, so no
  converter is called for them; and on the sink no logged pair and no key of the returned
  record is one of these keys.
\<close>

theorem for_model_ignores_reference_entries:
  "for_model e model record logger s =
     fn (\<lambda>k. if k \<in> REFERENCING_FIELDS then other k else call_converter (converters e model) k)
        (exclude_ref_fields record) logger [] s
   \<and> (\<forall>converted logged. for_model e model record sink [] = Inr (converted, logged) \<longrightarrow>
        (\<forall>k \<in> REFERENCING_FIELDS. k \<notin> fst ` set converted \<and> k \<notin> fst ` set logged))"
proof (intro conjI allI impI ballI)
  show "for_model e model record logger s =
     fn (\<lambda>k. if k \<in> REFERENCING_FIELDS then other k else call_converter (converters e model) k)
        (exclude_ref_fields record) logger [] s"
    unfolding for_model_def by (rule fn_skips_reference_keys)
next
  fix converted logged k
  assume "for_model e model record sink [] = Inr (converted, logged)" and k: "k \<in> REFERENCING_FIELDS"
  then have "fn (call_converter (converters e model)) record sink [] [] = Inr (converted, logged)"
    by (simp add: for_model_def)
  from fn_sink_keys [OF this] k show "k \<notin> fst ` set converted" "k \<notin> fst ` set logged"
    by auto
qed

theorem for_model_ignores_reference_entries_witness:
  "for_model demo_env ''res.partner''
     [(Some ''id'', Text ''not a number''), (None, Text ''Bob''), (Some ''name'', Text ''Bob''),
      (Some ''.id'', Text ''x'')] sink []
   = Inr ([(Some ''name'', PRaw (Text ''Bob''))], [])
   \<and> None \<notin> fst ` set [(Some ''name'', PRaw (Text ''Bob''))]
   \<and> Some ''id'' \<notin> fst ` set [(Some ''name'', PRaw (Text ''Bob''))]
   \<and> Some ''.id'' \<notin> fst ` set [(Some ''name'', PRaw (Text ''Bob''))]"
proof -
  have run: "for_model demo_env ''res.partner''
     [(Some ''id'', Text ''not a number''), (None, Text ''Bob''), (Some ''name'', Text ''Bob''),
      (Some ''.id'', Text ''x'')] sink []
   = Inr ([(Some ''name'', PRaw (Text ''Bob''))], [])"
    by (simp add: demo_eval)
  from for_model_ignores_reference_entries [of demo_env "''res.partner''" _ sink "[]"] run
  have "\<forall>k \<in> REFERENCING_FIELDS. k \<notin> fst ` set [(Some ''name'', PRaw (Text ''Bob''))]"
    by blast
  with run show ?thesis by (simp add: REFERENCING_FIELDS_def)
qed



text \<open>
  C7. A field whose type has no converter: \<open>to_field\<close> returns \<open>None\<close> for the
  serialized field \<open>payload\<close>, the loop calls it on the non-empty value, and the
  \<open>TypeError\<close> of that call leaves the converter: the record is not converted, and
  the field is not skipped.
\<close>

theorem for_model_calls_missing_converter:
  "to_field demo_env ''res.partner''
     \<lparr>ftype = ''serialized'', comodel_name = [], selection = [], digits = None\<rparr> ''str'' = None
   \<and> for_model demo_env ''res.partner''
       [(Some ''payload'', Text ''{}''), (Some ''name'', Text ''Bob'')] sink []
     = Inl TypeError"
  by (simp add: demo_eval)

subsection \<open>References\<close>

lemma referencing_subfield_outside:
  assumes "k \<in> fst ` set record" "k \<notin> REFERENCING_FIELDS"
  shows "referencing_subfield record = Inl (ValueError IndirectManyToOne)"
proof -
  have "k \<in> set (filter (\<lambda>k. k \<notin> REFERENCING_FIELDS) (remdups (map fst record)))"
    using assms by simp
  then have "filter (\<lambda>k. k \<notin> REFERENCING_FIELDS) (remdups (map fst record)) \<noteq> []"
    by (metis empty_iff list.set(1))
  then show ?thesis by (simp add: referencing_subfield_def)
qed

lemma referencing_subfield_many:
  assumes "fst ` set record \<subseteq> REFERENCING_FIELDS" "2 \<le> card (fst ` set record)"
  shows "referencing_subfield record = Inl (ValueError AmbiguousSpecification)"
proof -
  have "filter (\<lambda>k. k \<notin> REFERENCING_FIELDS) (remdups (map fst record)) = []"
    using assms(1) by (auto simp: filter_empty_conv)
  moreover have "length (remdups (map fst record)) = card (fst ` set record)"
    by (simp add: length_remdups_card_conv)
  ultimately show ?thesis using assms(2) by (simp add: referencing_subfield_def)
qed

text \<open>
  C5 (as amended). For every record given to \<open>_referencing_subfield\<close>: a sub-field
  outside the three referencing ones fails with the fatal error "can not create
  many-to-one records indirectly", also when several referencing sub-fields are there;
  two or more referencing sub-fields and no other fail with the
  ambiguous-specification error.
\<close>

theorem referencing_subfield_rejects:
  "((\<exists>k \<in> fst ` set record. k \<notin> REFERENCING_FIELDS) \<longrightarrow>
      referencing_subfield record = Inl (ValueError IndirectManyToOne))
   \<and> (fst ` set record \<subseteq> REFERENCING_FIELDS \<and> 2 \<le> card (fst ` set record) \<longrightarrow>
      referencing_subfield record = Inl (ValueError AmbiguousSpecification))"
  using referencing_subfield_outside referencing_subfield_many by blast

theorem referencing_subfield_rejects_witness:
  "referencing_subfield [(None, Text ''Bob''), (Some ''city'', Text ''Pune'')]
     = Inl (ValueError IndirectManyToOne)
   \<and> referencing_subfield [(None, Text ''Bob''), (Some ''id'', Text ''base.bob'')]
     = Inl (ValueError AmbiguousSpecification)
   \<and> Some ''city'' \<in> fst ` set [(None, Text ''Bob''), (Some ''city'', Text ''Pune'')]
   \<and> Some ''city'' \<notin> REFERENCING_FIELDS
   \<and> fst ` set [(None, Text ''Bob''), (Some ''id'', Text ''base.bob'')] \<subseteq> REFERENCING_FIELDS
   \<and> 2 \<le> card (fst ` set [(None, Text ''Bob''), (Some ''id'', Text ''base.bob'')])"
proof -
  let ?a = "[(None, Text ''Bob''), (Some ''city'', Text ''Pune'')]"
  let ?b = "[(None, Text ''Bob''), (Some ''id'', Text ''base.bob'')]"
  have a: "Some ''city'' \<in> fst ` set ?a" "Some ''city'' \<notin> REFERENCING_FIELDS"
    by (simp_all add: REFERENCING_FIELDS_def)
  have b: "fst ` set ?b \<subseteq> REFERENCING_FIELDS" "2 \<le> card (fst ` set ?b)"
    by (simp_all add: REFERENCING_FIELDS_def)
  from a referencing_subfield_rejects [of ?a]
  have "referencing_subfield ?a = Inl (ValueError IndirectManyToOne)" by blast
  moreover from b referencing_subfield_rejects [of ?b]
  have "referencing_subfield ?b = Inl (ValueError AmbiguousSpecification)" by blast
  ultimately show ?thesis using a b by blast
qed

text \<open>
  The claim as written fails: two referencing sub-fields next to another sub-field raise
  the error of the other sub-field, not the ambiguous-specification error.
\<close>

theorem referencing_subfield_ambiguous_counterexample:
  "\<not> (\<forall>record :: entries. 2 \<le> card (fst ` set record \<inter> REFERENCING_FIELDS) \<longrightarrow>
        referencing_subfield record = Inl (ValueError AmbiguousSpecification))"
proof
  let ?r = "[(None, Text ''Bob''), (Some ''id'', Text ''base.bob''), (Some ''city'', Text ''Pune'')]"
  assume "\<forall>record :: entries. 2 \<le> card (fst ` set record \<inter> REFERENCING_FIELDS) \<longrightarrow>
        referencing_subfield record = Inl (ValueError AmbiguousSpecification)"
  moreover have "fst ` set ?r \<inter> REFERENCING_FIELDS = {None, Some ''id''}"
    by (auto simp: REFERENCING_FIELDS_def)
  then have "2 \<le> card (fst ` set ?r \<inter> REFERENCING_FIELDS)" by simp
  ultimately have "referencing_subfield ?r = Inl (ValueError AmbiguousSpecification)" by blast
  moreover have "referencing_subfield ?r = Inl (ValueError IndirectManyToOne)"
    by (simp add: referencing_subfield_def REFERENCING_FIELDS_def)
  ultimately show False by simp
qed

subsection \<open>Many-to-many and one-to-many fields\<close>

lemma resolve_all_resolved:
  assumes "\<forall>r \<in> set refs. \<exists>i t w. db_id_for e field sub r = Inr (i, t, w)"
  shows "resolve_all e field sub refs ids ws =
     Inr (ids @ map (\<lambda>r. fst (projr (db_id_for e field sub r))) refs,
          ws @ concat (map (\<lambda>r. snd (snd (projr (db_id_for e field sub r)))) refs))"
  using assms
proof (induction refs arbitrary: ids ws)
  case Nil
  show ?case by simp
next
  case (Cons r refs)
  from Cons.prems obtain i t w where r: "db_id_for e field sub r = Inr (i, t, w)" by auto
  from Cons.prems have "\<forall>r \<in> set refs. \<exists>i t w. db_id_for e field sub r = Inr (i, t, w)"
    by simp
  from Cons.IH [OF this] show ?case by (simp add: r)
qed

lemma resolve_all_unresolved:
  assumes "\<exists>r \<in> set refs. \<exists>x. db_id_for e field sub r = Inl x"
  shows "\<exists>r \<in> set refs. \<exists>x. db_id_for e field sub r = Inl x
      \<and> resolve_all e field sub refs ids ws = Inl x"
  using assms
proof (induction refs arbitrary: ids ws)
  case Nil
  then show ?case by simp
next
  case (Cons r refs)
  show ?case
  proof (cases "db_id_for e field sub r")
    case (Inl x)
    then show ?thesis by auto
  next
    case (Inr p)
    with Cons.prems have "\<exists>r \<in> set refs. \<exists>x. db_id_for e field sub r = Inl x" by auto
    from Cons.IH [OF this] Inr show ?thesis by (auto split: prod.splits)
  qed
qed

lemma db_id_for_raises:
  assumes "sub \<in> REFERENCING_FIELDS" "db_id_for e field sub r = Inl x"
  shows "\<exists>m. x = ValueError m"
  using assms
  by (auto simp: db_id_for_def REFERENCING_FIELDS_def Let_def
           split: option.splits list.splits if_splits)

lemma referencing_subfield_single:
  assumes "sub \<in> REFERENCING_FIELDS"
  shows "referencing_subfield [(sub, x)] = Inr (sub, [])"
  using assms by (simp add: referencing_subfield_def)

text \<open>
  C4. A many-to-many field given one nested record whose single sub-field is a reference
  sub-field holding a comma-separated text: if every piece resolves, the result is one
  \<open>REPLACE_WITH\<close> command carrying the resolved ids in order, with the warnings of
  the resolutions; if a piece fails to resolve, the conversion raises a \<open>ValueError\<close>
  and returns no command list.
\<close>

theorem str_to_many2many_all_or_nothing:
  assumes "subfield \<in> REFERENCING_FIELDS"
  shows "((\<forall>r \<in> set (split_comma refs). \<exists>i t w. db_id_for e field subfield r = Inr (i, t, w)) \<longrightarrow>
            str_to_many2many e field (Rows [[(subfield, Text refs)]]) =
              Inr (PCommands [REPLACE_WITH
                     (map (\<lambda>r. fst (projr (db_id_for e field subfield r))) (split_comma refs))],
                   concat (map (\<lambda>r. snd (snd (projr (db_id_for e field subfield r))))
                     (split_comma refs))))
       \<and> ((\<exists>r \<in> set (split_comma refs). \<exists>x. db_id_for e field subfield r = Inl x) \<longrightarrow>
            (\<exists>m. str_to_many2many e field (Rows [[(subfield, Text refs)]]) = Inl (ValueError m)))"
proof (intro conjI impI)
  assume "\<forall>r \<in> set (split_comma refs). \<exists>i t w. db_id_for e field subfield r = Inr (i, t, w)"
  from resolve_all_resolved [OF this, of "[]" "[]"]
  show "str_to_many2many e field (Rows [[(subfield, Text refs)]]) =
              Inr (PCommands [REPLACE_WITH
                     (map (\<lambda>r. fst (projr (db_id_for e field subfield r))) (split_comma refs))],
                   concat (map (\<lambda>r. snd (snd (projr (db_id_for e field subfield r))))
                     (split_comma refs)))"
    by (simp add: str_to_many2many_def unpack_single_def reference_text_def
          referencing_subfield_single [OF assms])
next
  assume "\<exists>r \<in> set (split_comma refs). \<exists>x. db_id_for e field subfield r = Inl x"
  from resolve_all_unresolved [OF this, of "[]" "[]"] obtain r x where
    "db_id_for e field subfield r = Inl x"
    "resolve_all e field subfield (split_comma refs) [] [] = Inl x"
    by blast
  moreover from this(1) obtain m where "x = ValueError m"
    using db_id_for_raises [OF assms] by blast
  ultimately show "\<exists>m. str_to_many2many e field (Rows [[(subfield, Text refs)]]) = Inl (ValueError m)"
    by (simp add: str_to_many2many_def unpack_single_def reference_text_def
          referencing_subfield_single [OF assms])
qed

theorem str_to_many2many_all_or_nothing_witness:
  "str_to_many2many demo_env \<lparr>ftype = ''many2many'', comodel_name = ''res.partner.category'', selection = [], digits = None\<rparr>
     (Rows [[(Some ''id'', Text ''ref1,ref3'')]])
     = Inr (PCommands [REPLACE_WITH [42, 43]], [])
   \<and> str_to_many2many demo_env \<lparr>ftype = ''many2many'', comodel_name = ''res.partner.category'', selection = [], digits = None\<rparr>
     (Rows [[(Some ''id'', Text ''ref1,ref2'')]])
     = Inl (ValueError (NoMatchingRecord ''external id'' ''ref2''))"
proof -
  let ?f = "\<lparr>ftype = ''many2many'', comodel_name = ''res.partner.category'', selection = [], digits = None\<rparr>"
  have sub: "Some ''id'' \<in> REFERENCING_FIELDS" by (simp add: REFERENCING_FIELDS_def)
  have s13: "split_comma ''ref1,ref3'' = [''ref1'', ''ref3'']"
    and s12: "split_comma ''ref1,ref2'' = [''ref1'', ''ref2'']" by simp_all
  have r1: "db_id_for demo_env ?f (Some ''id'') ''ref1'' = Inr (42, ''external id'', [])"
    and r3: "db_id_for demo_env ?f (Some ''id'') ''ref3'' = Inr (43, ''external id'', [])"
    and r2: "db_id_for demo_env ?f (Some ''id'') ''ref2''
               = Inl (ValueError (NoMatchingRecord ''external id'' ''ref2''))"
    by (simp_all add: db_id_for_def demo_env_def)
  have all: "\<forall>r \<in> set (split_comma ''ref1,ref3'').
               \<exists>i t w. db_id_for demo_env ?f (Some ''id'') r = Inr (i, t, w)"
    unfolding s13 using r1 r3 by simp
  have some: "\<exists>r \<in> set (split_comma ''ref1,ref2'').
               \<exists>x. db_id_for demo_env ?f (Some ''id'') r = Inl x"
    unfolding s12 using r2 by simp
  from str_to_many2many_all_or_nothing [OF sub, of "''ref1,ref3''" demo_env ?f] all
  have "str_to_many2many demo_env ?f (Rows [[(Some ''id'', Text ''ref1,ref3'')]])
     = Inr (PCommands [REPLACE_WITH [42, 43]], [])"
    unfolding s13 by (simp add: r1 r3)
  moreover from str_to_many2many_all_or_nothing [OF sub, of "''ref1,ref2''" demo_env ?f] some
  obtain m where m: "str_to_many2many demo_env ?f (Rows [[(Some ''id'', Text ''ref1,ref2'')]])
     = Inl (ValueError m)"
    by blast
  have "str_to_many2many demo_env ?f (Rows [[(Some ''id'', Text ''ref1,ref2'')]])
     = Inl (ValueError (NoMatchingRecord ''external id'' ''ref2''))"
    by (simp add: demo_eval)
  ultimately show ?thesis by simp
qed

text \<open>
  C3. Converting the one-to-many input \<open>[{"id": "ref1"}]\<close>, where \<open>ref1\<close> resolves
  in the current import module to the id 42, yields the commands
  \<open>[LINK_TO(42), UPDATE(42, {})]\<close> and no warning, for \<open>_str_to_one2many\<close> and for
  the converter \<open>to_field\<close> gives for a one-to-many field.
\<close>

theorem str_to_one2many_link_and_update:
  assumes "ref e (import_current_module e @ ''.ref1'') = Some 42"
  shows "str_to_one2many e field (Rows [[(Some ''id'', Text ''ref1'')]])
           = Inr (PCommands [LINK_TO 42, UPDATE 42 []], [])
       \<and> (ftype field = ''one2many'' \<longrightarrow>
            convert e field (Rows [[(Some ''id'', Text ''ref1'')]])
              = Inr (PCommands [LINK_TO 42, UPDATE 42 []], []))"
proof -
  have run: "str_to_one2many_with conv e field (Rows [[(Some ''id'', Text ''ref1'')]])
           = Inr (PCommands [LINK_TO 42, UPDATE 42 []], [])" for conv
    using assms
    by (simp add: str_to_one2many_with_def expand_single_def exclude_ref_fields_def
          only_ref_fields_def REFERENCING_FIELDS_def referencing_subfield_def
          reference_text_def db_id_for_def)
  show ?thesis
    by (simp add: str_to_one2many_def run)
qed

theorem str_to_one2many_link_and_update_witness:
  "ref demo_env (import_current_module demo_env @ ''.ref1'') = Some 42
   \<and> str_to_one2many demo_env \<lparr>ftype = ''one2many'', comodel_name = ''res.partner'', selection = [], digits = None\<rparr>
         (Rows [[(Some ''id'', Text ''ref1'')]])
       = Inr (PCommands [LINK_TO 42, UPDATE 42 []], [])
   \<and> convert demo_env \<lparr>ftype = ''one2many'', comodel_name = ''res.partner'', selection = [], digits = None\<rparr>
         (Rows [[(Some ''id'', Text ''ref1'')]])
       = Inr (PCommands [LINK_TO 42, UPDATE 42 []], [])"
proof -
  have r: "ref demo_env (import_current_module demo_env @ ''.ref1'') = Some 42"
    by (simp add: demo_env_def)
  from str_to_one2many_link_and_update [OF r] r show ?thesis by simp
qed

section \<open>Properties of the relational columns\<close>

subsection \<open>The relation table of a many-to-many column\<close>

lemma concat_split_for_in_conditions:
  "0 < n \<Longrightarrow> concat (split_for_in_conditions n ids) = ids"
proof (induction n ids rule: split_for_in_conditions.induct)
  case (1 n ids)
  show ?case
  proof (cases "ids = []")
    case True
    then show ?thesis by (subst split_for_in_conditions.simps) simp
  next
    case False
    with 1 have "concat (split_for_in_conditions n (drop n ids)) = drop n ids" by simp
    with False 1(2) show ?thesis
      by (subst split_for_in_conditions.simps) simp
  qed
qed

lemma set_insert_except:
  "set (insert_except i sub_ids rel) = set rel \<union> Pair i ` set sub_ids"
  by (auto simp: insert_except_def)

lemma distinct_insert_except:
  "distinct rel \<Longrightarrow> distinct (insert_except i sub_ids rel)"
  by (auto simp: insert_except_def)

lemma insert_except_present:
  "Pair i ` set sub_ids \<subseteq> set rel \<Longrightarrow> insert_except i sub_ids rel = rel"
  by (auto simp: insert_except_def filter_empty_conv)

lemma set_fold_insert_except:
  "set (fold (insert_except i) chunks rel) = set rel \<union> Pair i ` set (concat chunks)"
  by (induction chunks arbitrary: rel) (auto simp: set_insert_except)

lemma distinct_fold_insert_except:
  "distinct rel \<Longrightarrow> distinct (fold (insert_except i) chunks rel)"
  by (induction chunks arbitrary: rel) (auto simp: distinct_insert_except)

lemma fold_insert_except_present:
  "Pair i ` set (concat chunks) \<subseteq> set rel \<Longrightarrow> fold (insert_except i) chunks rel = rel"
proof (induction chunks arbitrary: rel)
  case Nil
  show ?case by simp
next
  case (Cons a chunks)
  from Cons.prems have "insert_except i a rel = rel"
    by (intro insert_except_present) auto
  moreover from Cons.prems have "fold (insert_except i) chunks rel = rel"
    by (intro Cons.IH) auto
  ultimately show ?case by simp
qed

lemma IN_MAX_positive: "0 < IN_MAX"
  by (simp add: IN_MAX_def)

lemma set_link: "set (link i ids rel) = set rel \<union> Pair i ` set ids"
  by (simp add: link_def set_fold_insert_except concat_split_for_in_conditions IN_MAX_positive)

lemma distinct_link: "distinct rel \<Longrightarrow> distinct (link i ids rel)"
  by (simp add: link_def distinct_fold_insert_except)

lemma link_present: "Pair i ` set ids \<subseteq> set rel \<Longrightarrow> link i ids rel = rel"
  by (simp add: link_def fold_insert_except_present concat_split_for_in_conditions IN_MAX_positive)

lemma link_twice: "link i [k] (link i [k] rel) = link i [k] rel"
  by (rule link_present) (simp add: set_link)

lemma many2many_acts_link_each:
  "many2many_acts rule i (map LINK_TO ids) (rel, t) = Inr (fold (\<lambda>k. link i [k]) ids rel, t)"
  by (induction ids arbitrary: rel) simp_all

lemma set_fold_link:
  "set (fold (\<lambda>k. link i [k]) ids rel) = set rel \<union> Pair i ` set ids"
  by (induction ids arbitrary: rel) (auto simp: set_link)

lemma distinct_fold_link:
  "distinct rel \<Longrightarrow> distinct (fold (\<lambda>k. link i [k]) ids rel)"
  by (induction ids arbitrary: rel) (auto simp: distinct_link)

lemma distinct_unlink_all: "distinct rel \<Longrightarrow> distinct (unlink_all rule i t rel)"
  by (simp add: unlink_all_def)

lemma set_many2many_links: "set (many2many_links i rel) = {b. (i, b) \<in> set rel}"
  by (auto simp: many2many_links_def image_iff)

lemma many2many_replace_links:
  "set (many2many_links i (link i ids (unlink_all rule i t rel))) =
     set ids \<union> {b. (i, b) \<in> set rel \<and> (case map_of t b of None \<Rightarrow> True | Some row \<Rightarrow> \<not> rule b row)}"
  by (auto simp: set_many2many_links set_link unlink_all_def split: option.splits)

subsection \<open>The target table of a one-to-many column\<close>

lemma rows_rows: "rows f (rows g t) = rows (\<lambda>k row. f k (g k row)) t"
  by (simp add: rows_def case_prod_unfold comp_def)

lemma keys_rows [simp]: "map fst (rows f t) = map fst t"
  by (simp add: rows_def case_prod_unfold comp_def)

lemma key_set_rows [simp]: "fst ` set (rows f t) = fst ` set t"
  using keys_rows [of f t] by (metis set_map)

lemma rows_cong:
  assumes "\<And>k row. (k, row) \<in> set t \<Longrightarrow> f k row = g k row"
  shows "rows f t = rows g t"
  using assms by (auto simp: rows_def)

lemma rows_id: 
  assumes "\<And>k row. (k, row) \<in> set t \<Longrightarrow> f k row = row"
  shows "rows f t = t"
proof -
  have "rows f t = rows (\<lambda>k row. row) t" using assms by (rule rows_cong)
  also have "\<dots> = t" by (simp add: rows_def case_prod_unfold)
  finally show ?thesis .
qed

lemma in_rows: "(k, r) \<in> set (rows f t) \<longleftrightarrow> (\<exists>row. (k, row) \<in> set t \<and> r = f k row)"
  by (auto simp: rows_def)

lemma map_of_rows: "map_of (rows f t) k = map_option (f k) (map_of t k)"
  by (induction t) (auto simp: rows_def)

lemma column_dict_set:
  "column (dict_set row f v) g = (if g = f then v else column row g)"
  by (simp add: column_def map_of_dict_set)

lemma dict_set_twice: "dict_set (dict_set row f a) f b = dict_set row f b"
  by (induction row) auto

lemma dict_update_single [simp]: "dict_update row [(f, v)] = dict_set row f v"
  by (simp add: dict_update_def)

lemma orm_write_rows:
  assumes "set ids \<subseteq> fst ` set t"
  shows "orm_write ids vals t = Inr (rows (\<lambda>k row. if k \<in> set ids then dict_update row vals else row) t)"
proof -
  have "(\<lambda>(k, row). if k \<in> set ids then (k, dict_update row vals) else (k, row))
      = (\<lambda>(k, row). (k, if k \<in> set ids then dict_update row vals else row))"
    by auto
  with assms show ?thesis by (simp add: orm_write_def rows_def)
qed

lemma orm_write_column:
  assumes "set ids \<subseteq> fst ` set t"
  shows "orm_write ids [(f, v)] t = Inr (rows (\<lambda>k row. if k \<in> set ids then dict_set row f v else row) t)"
  unfolding orm_write_rows [OF assms] dict_update_single ..

lemma orm_search_keys: "set (orm_search cond t) \<subseteq> fst ` set t"
  by (auto simp: orm_search_def image_iff)

lemma orm_search_member:
  assumes "distinct (map fst t)" "(k, row) \<in> set t"
  shows "k \<in> set (orm_search cond t) \<longleftrightarrow> cond k row"
proof
  assume "k \<in> set (orm_search cond t)"
  then obtain row' where r: "(k, row') \<in> set t" "cond k row'"
    by (auto simp: orm_search_def)
  from assms r(1) have "row' = row" by (meson eq_key_imp_eq_value)
  with r show "cond k row" by simp
next
  assume "cond k row"
  with assms(2) show "k \<in> set (orm_search cond t)"
    by (force simp: orm_search_def)
qed

lemma orm_read_row:
  assumes "distinct (map fst t)" "(k, row) \<in> set t"
  shows "orm_read t k f = Inr (column row f)"
  using assms by (simp add: orm_read_def)

lemma one2many_replace_rows:
  assumes d: "distinct (map fst t)" and ids: "set ids \<subseteq> fst ` set t"
  shows "one2many_act col obj_fields i (REPLACE_WITH ids) t =
     Inr (rows (\<lambda>k row.
            if k \<in> set ids then
              (if k \<in> set (if ids = [] then [0] else ids)
               then dict_set row (o2m_fields_id col) (Num i)
               else dict_set row (o2m_fields_id col) Null)
            else if column row (o2m_fields_id col) = Num i \<and> k \<notin> set (if ids = [] then [0] else ids)
              then dict_set row (o2m_fields_id col) Null
            else row) t)"
proof -
  let ?fk = "o2m_fields_id col"
  let ?ids2 = "if ids = [] then [0] else ids"
  let ?w = "\<lambda>k row. if k \<in> set ids then dict_set row ?fk (Num i) else row"
  let ?t' = "rows ?w t"
  let ?cond = "\<lambda>k row. column row ?fk = Num i \<and> k \<notin> set ?ids2"
  let ?ids3 = "orm_search ?cond ?t'"
  let ?n = "\<lambda>k row. if k \<in> set ?ids3 then dict_set row ?fk Null else row"
  have w: "orm_write ids [(?fk, Num i)] t = Inr ?t'"
    by (rule orm_write_column [OF ids])
  have "set ?ids3 \<subseteq> fst ` set ?t'" by (rule orm_search_keys)
  then have n: "orm_write ?ids3 [(?fk, Null)] ?t' = Inr (rows ?n ?t')"
    by (rule orm_write_column)
  have d': "distinct (map fst ?t')" using d by simp
  have "rows ?n ?t' = rows (\<lambda>k row. ?n k (?w k row)) t" by (rule rows_rows)
  also have "\<dots> = rows (\<lambda>k row.
            if k \<in> set ids then
              (if k \<in> set ?ids2 then dict_set row ?fk (Num i) else dict_set row ?fk Null)
            else if column row ?fk = Num i \<and> k \<notin> set ?ids2 then dict_set row ?fk Null
            else row) t"
  proof (rule rows_cong)
    fix k row assume kr: "(k, row) \<in> set t"
    then have "(k, ?w k row) \<in> set ?t'" by (auto simp: in_rows)
    from orm_search_member [OF d' this]
    have mem: "k \<in> set ?ids3 \<longleftrightarrow> ?cond k (?w k row)" .
    show "?n k (?w k row) =
           (if k \<in> set ids then
              (if k \<in> set ?ids2 then dict_set row ?fk (Num i) else dict_set row ?fk Null)
            else if column row ?fk = Num i \<and> k \<notin> set ?ids2 then dict_set row ?fk Null
            else row)"
      unfolding mem by (auto simp: column_dict_set dict_set_twice)
  qed
  finally show ?thesis
    using w n by (simp add: Let_def)
qed

lemma one2many_delete_all_rows:
  assumes d: "distinct (map fst t)"
    and f: "obj_fields (o2m_fields_id col) = Some ondelete" "ondelete \<noteq> Some ''cascade''"
  shows "one2many_act col obj_fields i DELETE_ALL t =
     Inr (rows (\<lambda>k row.
            if column row (o2m_fields_id col) = Num i \<and> o2m_domain col k row
            then dict_set row (o2m_fields_id col) Null else row) t)"
proof -
  let ?fk = "o2m_fields_id col"
  let ?cond = "\<lambda>k row. column row ?fk = Num i \<and> o2m_domain col k row"
  let ?ids = "orm_search ?cond t"
  have "set ?ids \<subseteq> fst ` set t" by (rule orm_search_keys)
  then have "orm_write ?ids [(?fk, Null)] t =
          Inr (rows (\<lambda>k row. if k \<in> set ?ids then dict_set row ?fk Null else row) t)"
    by (rule orm_write_column)
  also have "rows (\<lambda>k row. if k \<in> set ?ids then dict_set row ?fk Null else row) t
           = rows (\<lambda>k row. if ?cond k row then dict_set row ?fk Null else row) t"
    by (rule rows_cong) (simp add: orm_search_member [OF d])
  finally show ?thesis using f by (simp add: Let_def)
qed

lemma one2many_link_rows:
  assumes d: "distinct (map fst t)" and k: "k \<in> fst ` set t"
  shows "one2many_act col obj_fields i (LINK_TO k) t =
     Inr (rows (\<lambda>k' row.
            if k' = k \<and> cell_int (column row (o2m_fields_id col)) \<noteq> i
            then dict_set row (o2m_fields_id col) (Num i) else row) t)"
proof -
  let ?fk = "o2m_fields_id col"
  from k obtain r where r: "(k, r) \<in> set t" by auto
  have read: "orm_read t k ?fk = Inr (column r ?fk)"
    using d r by (rule orm_read_row)
  show ?thesis
  proof (cases "cell_int (column r ?fk) = i")
    case True
    have "rows (\<lambda>k' row. if k' = k \<and> cell_int (column row ?fk) \<noteq> i
            then dict_set row ?fk (Num i) else row) t = t"
    proof (rule rows_id)
      fix k' row assume "(k', row) \<in> set t"
      with d r have "k' = k \<longrightarrow> row = r" by (meson eq_key_imp_eq_value)
      with True show "(if k' = k \<and> cell_int (column row ?fk) \<noteq> i
            then dict_set row ?fk (Num i) else row) = row" by auto
    qed
    with read True show ?thesis by simp
  next
    case False
    have "set [k] \<subseteq> fst ` set t" using k by simp
    then have "orm_write [k] [(?fk, Num i)] t =
            Inr (rows (\<lambda>k' row. if k' \<in> set [k] then dict_set row ?fk (Num i) else row) t)"
      by (rule orm_write_column)
    also have "rows (\<lambda>k' row. if k' \<in> set [k] then dict_set row ?fk (Num i) else row) t
        = rows (\<lambda>k' row. if k' = k \<and> cell_int (column row ?fk) \<noteq> i
            then dict_set row ?fk (Num i) else row) t"
    proof (rule rows_cong)
      fix k' row assume "(k', row) \<in> set t"
      with d r have "k' = k \<longrightarrow> row = r" by (meson eq_key_imp_eq_value)
      with False show "(if k' \<in> set [k] then dict_set row ?fk (Num i) else row) =
          (if k' = k \<and> cell_int (column row ?fk) \<noteq> i
            then dict_set row ?fk (Num i) else row)" by auto
    qed
    finally show ?thesis using read False by simp
  qed
qed

lemma one2many_link_each_rows:
  assumes "distinct (map fst t)" "set ids \<subseteq> fst ` set t"
  shows "one2many_acts col obj_fields i (map LINK_TO ids) t =
     Inr (rows (\<lambda>k row.
            if k \<in> set ids \<and> cell_int (column row (o2m_fields_id col)) \<noteq> i
            then dict_set row (o2m_fields_id col) (Num i) else row) t)"
  using assms
proof (induction ids arbitrary: t)
  case Nil
  have "rows (\<lambda>k row. row) t = t" by (rule rows_id) simp
  then show ?case by simp
next
  case (Cons x ids)
  let ?fk = "o2m_fields_id col"
  let ?g = "\<lambda>k row. if k = x \<and> cell_int (column row ?fk) \<noteq> i
            then dict_set row ?fk (Num i) else row"
  have x: "x \<in> fst ` set t" using Cons.prems(2) by simp
  have step: "one2many_act col obj_fields i (LINK_TO x) t = Inr (rows ?g t)"
    using Cons.prems(1) x by (rule one2many_link_rows)
  have "distinct (map fst (rows ?g t))" "set ids \<subseteq> fst ` set (rows ?g t)"
    using Cons.prems by simp_all
  from Cons.IH [OF this]
  have "one2many_acts col obj_fields i (map LINK_TO ids) (rows ?g t) =
     Inr (rows (\<lambda>k row.
            if k \<in> set ids \<and> cell_int (column (?g k row) ?fk) \<noteq> i
            then dict_set (?g k row) ?fk (Num i) else ?g k row) t)"
    by (simp add: rows_rows)
  also have "rows (\<lambda>k row.
            if k \<in> set ids \<and> cell_int (column (?g k row) ?fk) \<noteq> i
            then dict_set (?g k row) ?fk (Num i) else ?g k row) t
      = rows (\<lambda>k row.
            if k \<in> set (x # ids) \<and> cell_int (column row ?fk) \<noteq> i
            then dict_set row ?fk (Num i) else row) t"
    by (rule rows_cong) (auto simp: column_dict_set dict_set_twice)
  finally show ?case using step by simp
qed

subsection \<open>Replacing the links\<close>

lemma cell_int_linked: "i \<noteq> 0 \<Longrightarrow> cell_int c = i \<longleftrightarrow> c = Num i"
  by (cases c) auto

lemma set_one2many_links_rows:
  assumes "distinct (map fst t)"
  shows "set (one2many_links col i (rows f t)) =
           {k. \<exists>row. (k, row) \<in> set t \<and> column (f k row) (o2m_fields_id col) = Num i}"
proof (rule set_eqI)
  fix k
  let ?cond = "\<lambda>k row. column row (o2m_fields_id col) = Num i"
  have "k \<in> set (one2many_links col i (rows f t)) \<longleftrightarrow>
          (\<exists>r. (k, r) \<in> set (rows f t) \<and> ?cond k r)"
    by (force simp: one2many_links_def orm_search_def)
  also have "\<dots> \<longleftrightarrow> (\<exists>row. (k, row) \<in> set t \<and> ?cond k (f k row))"
    by (auto simp: in_rows)
  finally show "k \<in> set (one2many_links col i (rows f t)) \<longleftrightarrow>
      k \<in> {k. \<exists>row. (k, row) \<in> set t \<and> column (f k row) (o2m_fields_id col) = Num i}"
    by simp
qed

lemma many2many_replace:
  "\<exists>rel1 rel2.
       many2many_set rule i [REPLACE_WITH ids] (rel, t) = Inr (rel1, t)
     \<and> many2many_set rule i (DELETE_ALL # map LINK_TO ids) (rel, t) = Inr (rel2, t)
     \<and> set rel1 = set rel2
     \<and> (distinct rel \<longrightarrow> distinct rel1 \<and> distinct rel2)
     \<and> set (many2many_links i rel1) =
         set ids \<union> {b. (i, b) \<in> set rel
                       \<and> (case map_of t b of None \<Rightarrow> True | Some row \<Rightarrow> \<not> rule b row)}"
proof -
  let ?u = "unlink_all rule i t rel"
  let ?rel1 = "link i ids ?u"
  let ?rel2 = "fold (\<lambda>k. link i [k]) ids ?u"
  have 1: "many2many_set rule i [REPLACE_WITH ids] (rel, t) = Inr (?rel1, t)"
    by (simp add: many2many_set_def)
  have 2: "many2many_set rule i (DELETE_ALL # map LINK_TO ids) (rel, t) = Inr (?rel2, t)"
    by (simp add: many2many_set_def many2many_acts_link_each)
  have 3: "set ?rel1 = set ?rel2" by (simp add: set_link set_fold_link)
  have 4: "distinct rel \<longrightarrow> distinct ?rel1 \<and> distinct ?rel2"
    by (simp add: distinct_link distinct_fold_link distinct_unlink_all)
  from 1 2 3 4 many2many_replace_links [of i ids rule t rel] show ?thesis by blast
qed

lemma one2many_replace_links:
  assumes d: "distinct (map fst t)" and ids: "set ids \<subseteq> fst ` set t" and z: "0 \<notin> fst ` set t"
  shows "\<exists>t'. one2many_set col obj_fields i [REPLACE_WITH ids] t = Inr t'
            \<and> set (one2many_links col i t') = set ids"
proof -
  let ?fk = "o2m_fields_id col"
  let ?ids2 = "if ids = [] then [0] else ids"
  let ?F = "\<lambda>k row.
            if k \<in> set ids then
              (if k \<in> set ?ids2 then dict_set row ?fk (Num i) else dict_set row ?fk Null)
            else if column row ?fk = Num i \<and> k \<notin> set ?ids2 then dict_set row ?fk Null
            else row"
  have run: "one2many_set col obj_fields i [REPLACE_WITH ids] t = Inr (rows ?F t)"
    using one2many_replace_rows [OF d ids, of col obj_fields i]
    by (simp add: one2many_set_def)
  have "set (one2many_links col i (rows ?F t)) = set ids"
  proof (rule set_eqI)
    fix k
    show "k \<in> set (one2many_links col i (rows ?F t)) \<longleftrightarrow> k \<in> set ids"
    proof
      assume "k \<in> set (one2many_links col i (rows ?F t))"
      then obtain row where r: "(k, row) \<in> set t" "column (?F k row) ?fk = Num i"
        unfolding set_one2many_links_rows [OF d] by blast
      from r(1) z have "k \<noteq> 0" by force
      with r(2) show "k \<in> set ids"
        by (auto simp: column_dict_set split: if_splits)
    next
      assume k: "k \<in> set ids"
      with ids obtain row where r: "(k, row) \<in> set t" by auto
      from k have "column (?F k row) ?fk = Num i"
        by (auto simp: column_dict_set)
      with r show "k \<in> set (one2many_links col i (rows ?F t))"
        unfolding set_one2many_links_rows [OF d] by blast
    qed
  qed
  with run show ?thesis by blast
qed

lemma one2many_replace_sequence:
  assumes d: "distinct (map fst t)" and ids: "set ids \<subseteq> fst ` set t" and z: "0 \<notin> fst ` set t"
    and i: "i \<noteq> 0"
    and f: "obj_fields (o2m_fields_id col) = Some ondelete" "ondelete \<noteq> Some ''cascade''"
    and dom: "\<forall>(k, row) \<in> set t. column row (o2m_fields_id col) = Num i \<longrightarrow> o2m_domain col k row"
  shows "one2many_set col obj_fields i [REPLACE_WITH ids] t =
         one2many_set col obj_fields i (DELETE_ALL # map LINK_TO ids) t"
proof -
  let ?fk = "o2m_fields_id col"
  let ?ids2 = "if ids = [] then [0] else ids"
  let ?F = "\<lambda>k row.
            if k \<in> set ids then
              (if k \<in> set ?ids2 then dict_set row ?fk (Num i) else dict_set row ?fk Null)
            else if column row ?fk = Num i \<and> k \<notin> set ?ids2 then dict_set row ?fk Null
            else row"
  let ?D = "\<lambda>k row. if column row ?fk = Num i \<and> o2m_domain col k row
            then dict_set row ?fk Null else row"
  let ?L = "\<lambda>k row. if k \<in> set ids \<and> cell_int (column row ?fk) \<noteq> i
            then dict_set row ?fk (Num i) else row"
  have lhs: "one2many_set col obj_fields i [REPLACE_WITH ids] t = Inr (rows ?F t)"
    using one2many_replace_rows [OF d ids, of col obj_fields i]
    by (simp add: one2many_set_def)
  have del: "one2many_act col obj_fields i DELETE_ALL t = Inr (rows ?D t)"
    using d f by (rule one2many_delete_all_rows)
  have "distinct (map fst (rows ?D t))" "set ids \<subseteq> fst ` set (rows ?D t)"
    using d ids by simp_all
  then have "one2many_acts col obj_fields i (map LINK_TO ids) (rows ?D t) = Inr (rows ?L (rows ?D t))"
    by (rule one2many_link_each_rows)
  with del have rhs: "one2many_set col obj_fields i (DELETE_ALL # map LINK_TO ids) t
      = Inr (rows (\<lambda>k row. ?L k (?D k row)) t)"
    by (simp add: one2many_set_def rows_rows)
  have "rows (\<lambda>k row. ?L k (?D k row)) t = rows ?F t"
  proof (rule rows_cong)
    fix k row assume r: "(k, row) \<in> set t"
    from r z have k0: "k \<noteq> 0" by force
    from r dom have dk: "column row ?fk = Num i \<longrightarrow> o2m_domain col k row" by blast
    show "?L k (?D k row) = ?F k row"
      using k0 dk i
      by (auto simp: column_dict_set dict_set_twice cell_int_linked)
  qed
  with lhs rhs show ?thesis by simp
qed

text \<open>The equations that evaluate the columns on the concrete table.\<close>

lemmas rel_eval =
  many2many_set_def one2many_set_def link_def unlink_all_def insert_except_def IN_MAX_def
  split_for_in_conditions.simps many2many_links_def one2many_links_def orm_search_def
  orm_write_def orm_unlink_def orm_read_def column_def dict_update_def
  demo_column_def demo_table_def set_null_fields_def cascade_fields_def

text \<open>
  C1 (as amended). Many-to-many: \<open>REPLACE_WITH(ids)\<close> leaves, as the links of the
  record, the given ids and those prior links that \<open>unlink_all\<close> does not remove (the
  target row is not in the target table or the access rules of the user exclude it), so
  exactly the given ids when every prior link is removable; and it leaves the same rows
  in the relation table, each once, as \<open>DELETE_ALL\<close> followed by \<open>LINK_TO\<close> for each
  id. One-to-many, for ids that are rows of the target table (ids are not 0):
  \<open>REPLACE_WITH(ids)\<close> makes the rows whose inverse key is the record exactly the
  given ids, whatever the prior links; it gives the same table as \<open>DELETE_ALL\<close>
  followed by \<open>LINK_TO\<close> for each id when the inverse field is not \<open>ondelete\<close>
  cascade and the domain of the column excludes no linked row.
\<close>

theorem replace_with_sets_links:
  "(\<exists>rel1 rel2.
        many2many_set rule i [REPLACE_WITH ids] (rel, t) = Inr (rel1, t)
      \<and> many2many_set rule i (DELETE_ALL # map LINK_TO ids) (rel, t) = Inr (rel2, t)
      \<and> set rel1 = set rel2
      \<and> (distinct rel \<longrightarrow> distinct rel1 \<and> distinct rel2)
      \<and> set (many2many_links i rel1) =
          set ids \<union> {b. (i, b) \<in> set rel
                        \<and> (case map_of t b of None \<Rightarrow> True | Some row \<Rightarrow> \<not> rule b row)})
   \<and> (distinct (map fst t') \<and> set ids \<subseteq> fst ` set t' \<and> 0 \<notin> fst ` set t' \<longrightarrow>
        (\<exists>t''. one2many_set col obj_fields i [REPLACE_WITH ids] t' = Inr t''
               \<and> set (one2many_links col i t'') = set ids))
   \<and> (distinct (map fst t') \<and> set ids \<subseteq> fst ` set t' \<and> 0 \<notin> fst ` set t' \<and> i \<noteq> 0
        \<and> obj_fields (o2m_fields_id col) = Some ondelete \<and> ondelete \<noteq> Some ''cascade''
        \<and> (\<forall>(k, row) \<in> set t'. column row (o2m_fields_id col) = Num i \<longrightarrow> o2m_domain col k row)
        \<longrightarrow> one2many_set col obj_fields i [REPLACE_WITH ids] t' =
            one2many_set col obj_fields i (DELETE_ALL # map LINK_TO ids) t')"
  using many2many_replace [of rule i ids rel t]
    one2many_replace_links [of t' ids col obj_fields i]
    one2many_replace_sequence [of t' ids i obj_fields col ondelete]
  by blast

theorem replace_with_sets_links_witness:
  "many2many_set (\<lambda>b row. True) 1 [REPLACE_WITH [5, 6]] ([(1, 7), (2, 7)], demo_table)
     = Inr ([(2, 7), (1, 5), (1, 6)], demo_table)
   \<and> set (many2many_links 1 [(2, 7), (1, 5), (1, 6)]) = set [5, 6]
   \<and> one2many_set demo_column set_null_fields 1 [REPLACE_WITH [5, 6]] demo_table
     = Inr [(5, [(''parent_id'', Num 1)]), (6, [(''parent_id'', Num 1)]), (7, [(''parent_id'', Null)])]
   \<and> set (one2many_links demo_column 1
        [(5, [(''parent_id'', Num 1)]), (6, [(''parent_id'', Num 1)]), (7, [(''parent_id'', Null)])])
     = set [5, 6]
   \<and> one2many_set demo_column set_null_fields 1 (DELETE_ALL # map LINK_TO [5, 6]) demo_table
     = Inr [(5, [(''parent_id'', Num 1)]), (6, [(''parent_id'', Num 1)]), (7, [(''parent_id'', Null)])]"
proof -
  let ?t2 = "[(5, [(''parent_id'', Num 1)]), (6, [(''parent_id'', Num 1)]), (7, [(''parent_id'', Null)])]"
  have pre: "distinct (map fst demo_table)" "set [5, 6] \<subseteq> fst ` set demo_table"
      "0 \<notin> fst ` set demo_table" "(1::int) \<noteq> 0"
      "set_null_fields (o2m_fields_id demo_column) = Some (Some ''set null'')"
      "Some ''set null'' \<noteq> Some ''cascade''"
      "\<forall>(k, row) \<in> set demo_table. column row (o2m_fields_id demo_column) = Num 1
          \<longrightarrow> o2m_domain demo_column k row"
    by (simp_all add: demo_table_def demo_column_def set_null_fields_def)
  have m: "many2many_set (\<lambda>b row. True) 1 [REPLACE_WITH [5, 6]] ([(1, 7), (2, 7)], demo_table)
     = Inr ([(2, 7), (1, 5), (1, 6)], demo_table)"
    by (simp add: rel_eval)
  have o: "one2many_set demo_column set_null_fields 1 [REPLACE_WITH [5, 6]] demo_table = Inr ?t2"
    by (simp add: rel_eval)
  from replace_with_sets_links [of "\<lambda>b row. True" 1 "[5, 6]" "[(1, 7), (2, 7)]" demo_table demo_table
      demo_column set_null_fields "Some ''set null''"] pre
  have links: "\<exists>t''. one2many_set demo_column set_null_fields 1 [REPLACE_WITH [5, 6]] demo_table = Inr t''
               \<and> set (one2many_links demo_column 1 t'') = set [5, 6]"
    and same: "one2many_set demo_column set_null_fields 1 [REPLACE_WITH [5, 6]] demo_table =
            one2many_set demo_column set_null_fields 1 (DELETE_ALL # map LINK_TO [5, 6]) demo_table"
    by blast+
  from links o have "set (one2many_links demo_column 1 ?t2) = set [5, 6]" by simp
  moreover have "set (many2many_links 1 [(2, 7), (1, 5), (1, 6)]) = set [5, 6]"
    by (simp add: many2many_links_def)
  ultimately show ?thesis using m o same by simp
qed

text \<open>
  The claim as written fails. Many-to-many: a prior link to the row 7, which the access
  rules of the user exclude, stays beside the given id. One-to-many with \<open>ondelete\<close>
  cascade: \<open>REPLACE_WITH [5]\<close> keeps the linked row 5, while \<open>DELETE_ALL\<close> deletes
  it and the \<open>LINK_TO 5\<close> that follows fails on the missing record.
\<close>

theorem replace_with_counterexample:
  "many2many_set (\<lambda>b row. b \<noteq> 7) 1 [REPLACE_WITH [5]] ([(1, 7)], demo_table)
     = Inr ([(1, 7), (1, 5)], demo_table)
   \<and> set (many2many_links 1 [(1, 7), (1, 5)]) \<noteq> set [5]
   \<and> one2many_set demo_column cascade_fields 1 [REPLACE_WITH [5]] demo_table
     = Inr [(5, [(''parent_id'', Num 1)]), (6, [(''parent_id'', Null)]), (7, [(''parent_id'', Null)])]
   \<and> one2many_set demo_column cascade_fields 1 (DELETE_ALL # map LINK_TO [5]) demo_table
     = Inl MissingError"
  by (simp add: rel_eval)

subsection \<open>Linking twice\<close>

lemma one2many_link_linked:
  assumes "map_of t k = Some row" "column row (o2m_fields_id col) = Num i"
  shows "one2many_act col obj_fields i (LINK_TO k) t = Inr t"
  using assms by (simp add: orm_read_def)

lemma one2many_link_twice:
  "one2many_acts col obj_fields i [LINK_TO k, LINK_TO k] t =
   one2many_acts col obj_fields i [LINK_TO k] t"
proof (cases "map_of t k")
  case None
  then show ?thesis by (simp add: orm_read_def)
next
  case (Some row)
  let ?fk = "o2m_fields_id col"
  show ?thesis
  proof (cases "cell_int (column row ?fk) = i")
    case True
    with Some show ?thesis by (simp add: orm_read_def)
  next
    case False
    let ?w = "\<lambda>k' r. if k' \<in> set [k] then dict_set r ?fk (Num i) else r"
    from Some have "k \<in> fst ` set t" by (metis map_of_eq_None_iff option.distinct(1))
    then have "set [k] \<subseteq> fst ` set t" by simp
    then have w: "orm_write [k] [(?fk, Num i)] t = Inr (rows ?w t)"
      by (rule orm_write_column)
    have "map_of (rows ?w t) k = Some (dict_set row ?fk (Num i))"
      using Some by (simp add: map_of_rows)
    then have again: "one2many_act col obj_fields i (LINK_TO k) (rows ?w t) = Inr (rows ?w t)"
      by (rule one2many_link_linked) (simp add: column_dict_set)
    have first: "one2many_act col obj_fields i (LINK_TO k) t = Inr (rows ?w t)"
      using Some False w by (simp add: orm_read_def)
    show ?thesis by (simp only: one2many_acts.simps first again sum.case)
  qed
qed

text \<open>
  C6. \<open>LINK_TO(id)\<close> twice with the same id leaves what \<open>LINK_TO(id)\<close> once leaves.
  Many-to-many: no pair is inserted when the relation table holds the link already, and
  a table without duplicate rows stays so, with the link added. One-to-many: the target
  table is left as it is when the inverse key of the row points at the record already.
\<close>

theorem link_to_idempotent:
  "many2many_set rule i [LINK_TO k, LINK_TO k] (rel, t) = many2many_set rule i [LINK_TO k] (rel, t)
   \<and> ((i, k) \<in> set rel \<longrightarrow> many2many_set rule i [LINK_TO k] (rel, t) = Inr (rel, t))
   \<and> (distinct rel \<longrightarrow>
        (\<exists>rel'. many2many_set rule i [LINK_TO k] (rel, t) = Inr (rel', t)
               \<and> distinct rel' \<and> set rel' = insert (i, k) (set rel)))
   \<and> one2many_set col obj_fields i [LINK_TO k, LINK_TO k] t' =
       one2many_set col obj_fields i [LINK_TO k] t'
   \<and> ((\<exists>row. map_of t' k = Some row \<and> column row (o2m_fields_id col) = Num i) \<longrightarrow>
        one2many_set col obj_fields i [LINK_TO k] t' = Inr t')"
proof (intro conjI impI)
  show "many2many_set rule i [LINK_TO k, LINK_TO k] (rel, t) = many2many_set rule i [LINK_TO k] (rel, t)"
    by (simp add: many2many_set_def link_twice)
  show "many2many_set rule i [LINK_TO k] (rel, t) = Inr (rel, t)" if "(i, k) \<in> set rel"
    using that by (simp add: many2many_set_def link_present)
  show "\<exists>rel'. many2many_set rule i [LINK_TO k] (rel, t) = Inr (rel', t)
               \<and> distinct rel' \<and> set rel' = insert (i, k) (set rel)" if "distinct rel"
    using that by (simp add: many2many_set_def distinct_link set_link)
  show "one2many_set col obj_fields i [LINK_TO k, LINK_TO k] t' =
       one2many_set col obj_fields i [LINK_TO k] t'"
    using one2many_link_twice [of col obj_fields i k t'] by (simp add: one2many_set_def)
  show "one2many_set col obj_fields i [LINK_TO k] t' = Inr t'"
    if "\<exists>row. map_of t' k = Some row \<and> column row (o2m_fields_id col) = Num i"
    using that one2many_link_linked [of t' k _ col i obj_fields]
    by (auto simp: one2many_set_def)
qed

theorem link_to_idempotent_witness:
  "many2many_set (\<lambda>b row. True) 1 [LINK_TO 5, LINK_TO 5] ([(1, 7)], demo_table)
     = Inr ([(1, 7), (1, 5)], demo_table)
   \<and> many2many_set (\<lambda>b row. True) 1 [LINK_TO 5] ([(1, 7)], demo_table)
     = Inr ([(1, 7), (1, 5)], demo_table)
   \<and> many2many_set (\<lambda>b row. True) 1 [LINK_TO 7] ([(1, 7)], demo_table) = Inr ([(1, 7)], demo_table)
   \<and> one2many_set demo_column set_null_fields 1 [LINK_TO 6, LINK_TO 6] demo_table
     = Inr [(5, [(''parent_id'', Num 1)]), (6, [(''parent_id'', Num 1)]), (7, [(''parent_id'', Num 1)])]
   \<and> one2many_set demo_column set_null_fields 1 [LINK_TO 6] demo_table
     = Inr [(5, [(''parent_id'', Num 1)]), (6, [(''parent_id'', Num 1)]), (7, [(''parent_id'', Num 1)])]
   \<and> one2many_set demo_column set_null_fields 1 [LINK_TO 5] demo_table = Inr demo_table"
proof -
  have in_rel: "(1, 7) \<in> set [(1::int, 7::int)]" and d: "distinct [(1::int, 7::int)]" by simp_all
  have linked: "\<exists>row. map_of demo_table 5 = Some row
      \<and> column row (o2m_fields_id demo_column) = Num 1"
    by (simp add: demo_table_def demo_column_def column_def)
  have once: "many2many_set (\<lambda>b row. True) 1 [LINK_TO 5] ([(1, 7)], demo_table)
     = Inr ([(1, 7), (1, 5)], demo_table)"
    by (simp add: rel_eval)
  have o_once: "one2many_set demo_column set_null_fields 1 [LINK_TO 6] demo_table
     = Inr [(5, [(''parent_id'', Num 1)]), (6, [(''parent_id'', Num 1)]), (7, [(''parent_id'', Num 1)])]"
    by (simp add: rel_eval)
  note inst = link_to_idempotent [of "\<lambda>b row. True" 1 _ "[(1, 7)]" demo_table demo_column
      set_null_fields demo_table]
  from inst [of 5] once
  have "many2many_set (\<lambda>b row. True) 1 [LINK_TO 5, LINK_TO 5] ([(1, 7)], demo_table)
     = Inr ([(1, 7), (1, 5)], demo_table)" by simp
  moreover from inst [of 7] in_rel
  have "many2many_set (\<lambda>b row. True) 1 [LINK_TO 7] ([(1, 7)], demo_table) = Inr ([(1, 7)], demo_table)"
    by blast
  moreover from inst [of 6] o_once
  have "one2many_set demo_column set_null_fields 1 [LINK_TO 6, LINK_TO 6] demo_table
     = Inr [(5, [(''parent_id'', Num 1)]), (6, [(''parent_id'', Num 1)]), (7, [(''parent_id'', Num 1)])]"
    by simp
  moreover from inst [of 5] linked
  have "one2many_set demo_column set_null_fields 1 [LINK_TO 5] demo_table = Inr demo_table"
    by blast
  ultimately show ?thesis using once o_once by simp
qed

section \<open>Properties of the column descriptors\<close>






section \<open>Properties of the float column\<close>

lemma round_near_int:
  fixes y :: rat and m :: int
  assumes "\<bar>y - of_int m\<bar> < 1 / 2"
  shows "sgn y * of_int \<lfloor>\<bar>y\<bar> + 1 / 2\<rfloor> = of_int m"
proof (cases "y = 0")
  case True
  with assms have "\<bar>(of_int m :: rat)\<bar> < 1" by simp
  then have "\<bar>m\<bar> < 1" by (metis of_int_abs of_int_less_1_iff)
  then have "m = 0" by simp
  with True show ?thesis by simp
next
  case False
  from assms have lo: "of_int m - 1 / 2 < y" and hi: "y < of_int m + 1 / 2"
    by linarith+
  show ?thesis
  proof (cases "0 < y")
    case True
    have "\<lfloor>y + 1 / 2\<rfloor> = m"
      by (rule floor_unique) (use lo hi in linarith)+
    with True show ?thesis by simp
  next
    case neg: False
    with False have y: "y < 0" by simp
    have minus: "(of_int (- m) :: rat) = - of_int m" by simp
    have "\<lfloor>- y + 1 / 2\<rfloor> = - m"
    proof (rule floor_unique)
      show "of_int (- m) \<le> - y + 1 / 2" unfolding minus using hi by linarith
      show "- y + 1 / 2 < of_int (- m) + 1" unfolding minus using lo by linarith
    qed
    with y show ?thesis by simp
  qed
qed

lemma float_round_value:
  "float_round x s * 10 ^ s = sgn x * of_int \<lfloor>\<bar>x\<bar> * 10 ^ s + 1 / 2\<rfloor>"
  by (simp add: float_round_def)

lemma float_round_near:
  assumes "\<bar>d - of_int m / 10 ^ s\<bar> < 1 / (2 * 10 ^ s)"
  shows "float_round d s = of_int m / 10 ^ s"
proof -
  let ?p = "(10::rat) ^ s"
  have p: "0 < ?p" by simp
  have "d * ?p - of_int m = (d - of_int m / ?p) * ?p"
    by (simp add: field_simps)
  then have "\<bar>d * ?p - of_int m\<bar> = \<bar>d - of_int m / ?p\<bar> * ?p"
    by (simp only: abs_mult) simp
  moreover have "\<bar>d - of_int m / ?p\<bar> * (2 * ?p) < 1 / (2 * ?p) * (2 * ?p)"
    using assms p by (intro mult_strict_right_mono) simp_all
  then have "\<bar>d - of_int m / ?p\<bar> * ?p < 1 / 2" using p by simp
  ultimately have near: "\<bar>d * ?p - of_int m\<bar> < 1 / 2" by simp
  have "sgn (d * ?p) * of_int \<lfloor>\<bar>d * ?p\<bar> + 1 / 2\<rfloor> = (of_int m :: rat)"
    using near by (rule round_near_int)
  moreover have "sgn (d * ?p) = sgn d" using p by (simp add: sgn_mult)
  moreover have "\<bar>d * ?p\<bar> = \<bar>d\<bar> * ?p" using p by (simp add: abs_mult)
  ultimately have "sgn d * of_int \<lfloor>\<bar>d\<bar> * ?p + 1 / 2\<rfloor> = (of_int m :: rat)" by simp
  then show ?thesis by (simp add: float_round_def)
qed

lemma float_round_is_fixed: "\<exists>m. float_round x s = of_int m / 10 ^ s"
proof -
  let ?n = "\<lfloor>\<bar>x\<bar> * 10 ^ s + 1 / 2\<rfloor>"
  have "sgn x * of_int ?n = (of_int (if x < 0 then - ?n else if x = 0 then 0 else ?n) :: rat)"
    by (auto simp: sgn_if)
  then show ?thesis unfolding float_round_def by metis
qed

lemma float_round_error: "\<bar>x - float_round x s\<bar> \<le> 1 / (2 * 10 ^ s)"
proof -
  let ?p = "(10::rat) ^ s"
  let ?n = "\<lfloor>\<bar>x\<bar> * ?p + 1 / 2\<rfloor>"
  have p: "0 < ?p" by simp
  have lo: "of_int ?n \<le> \<bar>x\<bar> * ?p + 1 / 2" by (rule of_int_floor_le)
  have hi: "\<bar>x\<bar> * ?p + 1 / 2 < of_int ?n + 1" by linarith
  from lo hi have near: "\<bar>\<bar>x\<bar> * ?p - of_int ?n\<bar> \<le> 1 / 2" by linarith
  have "x - float_round x s = sgn x * ((\<bar>x\<bar> * ?p - of_int ?n) / ?p)"
    using p by (simp add: float_round_def field_simps sgn_if)
  then have "\<bar>x - float_round x s\<bar> = \<bar>sgn x\<bar> * (\<bar>\<bar>x\<bar> * ?p - of_int ?n\<bar> / ?p)"
    using p by (simp add: abs_mult)
  also have "\<dots> \<le> 1 * (\<bar>\<bar>x\<bar> * ?p - of_int ?n\<bar> / ?p)"
    by (intro mult_right_mono) (auto simp: sgn_if)
  also have "\<dots> \<le> 1 * ((1 / 2) / ?p)"
    using near p by (intro mult_left_mono divide_right_mono) simp_all
  finally show ?thesis by simp
qed

lemma float_repr_fixed:
  "float_repr (of_int m / 10 ^ s) s = \<lparr>fixed_digits = m, fixed_scale = s\<rparr>"
proof -
  have "\<lfloor>(of_int m :: rat) + 1 / 2\<rfloor> = m" by (intro floor_unique) auto
  then show ?thesis by (simp add: float_repr_def)
qed

text \<open>
  C8 (as amended). Converting a text for a float field yields the number \<open>float\<close>
  parses from it, not rounded, whatever the digits of the field, with no warning.
  Encoding a float for a column with digits (precision, scale) rounds it to the scale
  and writes it at that scale: the result is a decimal of \<open>scale\<close> digits no further
  from the float than half a unit of its last digit; and encoding any float that is
  nearer to this decimal than half a unit of its last digit, as the float read back
  from it is, gives the same decimal.
\<close>

theorem float_conversion_and_encoding:
  "str_to_float e field (Text s) =
     (case py_float e s of
        Some v \<Rightarrow> Inr (PFloat v, [])
      | None \<Rightarrow> Inl (ValueError (NotANumber s)))
   \<and> (\<exists>m. symbol_set_float (Some (precision, scale)) x =
              AsText \<lparr>fixed_digits = m, fixed_scale = scale\<rparr>
          \<and> \<bar>(case x of None \<Rightarrow> 0 | Some v \<Rightarrow> v)
               - fixed_value \<lparr>fixed_digits = m, fixed_scale = scale\<rparr>\<bar> \<le> 1 / (2 * 10 ^ scale)
          \<and> (\<forall>d. \<bar>d - fixed_value \<lparr>fixed_digits = m, fixed_scale = scale\<rparr>\<bar> < 1 / (2 * 10 ^ scale)
                 \<longrightarrow> symbol_set_float (Some (precision, scale)) (Some d) =
                     AsText \<lparr>fixed_digits = m, fixed_scale = scale\<rparr>))"
proof
  show "str_to_float e field (Text s) =
     (case py_float e s of
        Some v \<Rightarrow> Inr (PFloat v, [])
      | None \<Rightarrow> Inl (ValueError (NotANumber s)))"
    by (simp add: str_to_float_def)
next
  let ?v = "case x of None \<Rightarrow> 0 | Some v \<Rightarrow> v"
  obtain m where m: "float_round ?v scale = of_int m / 10 ^ scale"
    using float_round_is_fixed by blast
  have enc: "symbol_set_float (Some (precision, scale)) x =
              AsText \<lparr>fixed_digits = m, fixed_scale = scale\<rparr>"
    by (simp add: symbol_set_float_def m float_repr_fixed)
  have err: "\<bar>?v - fixed_value \<lparr>fixed_digits = m, fixed_scale = scale\<rparr>\<bar> \<le> 1 / (2 * 10 ^ scale)"
    using float_round_error [of ?v scale] by (simp add: m fixed_value_def)
  have stable: "symbol_set_float (Some (precision, scale)) (Some d) =
                     AsText \<lparr>fixed_digits = m, fixed_scale = scale\<rparr>"
    if "\<bar>d - fixed_value \<lparr>fixed_digits = m, fixed_scale = scale\<rparr>\<bar> < 1 / (2 * 10 ^ scale)" for d
  proof -
    from that have "float_round d scale = of_int m / 10 ^ scale"
      by (intro float_round_near) (simp add: fixed_value_def)
    then show ?thesis by (simp add: symbol_set_float_def float_repr_fixed)
  qed
  from enc err stable
  show "\<exists>m. symbol_set_float (Some (precision, scale)) x =
              AsText \<lparr>fixed_digits = m, fixed_scale = scale\<rparr>
          \<and> \<bar>?v - fixed_value \<lparr>fixed_digits = m, fixed_scale = scale\<rparr>\<bar> \<le> 1 / (2 * 10 ^ scale)
          \<and> (\<forall>d. \<bar>d - fixed_value \<lparr>fixed_digits = m, fixed_scale = scale\<rparr>\<bar> < 1 / (2 * 10 ^ scale)
                 \<longrightarrow> symbol_set_float (Some (precision, scale)) (Some d) =
                     AsText \<lparr>fixed_digits = m, fixed_scale = scale\<rparr>)"
    by blast
qed

theorem float_conversion_and_encoding_witness:
  "str_to_float demo_env
       \<lparr>ftype = ''float'', comodel_name = [], selection = [], digits = Some (16, 2)\<rparr>
       (Text ''12.345'')
     = Inr (PFloat (6949617174986097 / 562949953421312), [])
   \<and> symbol_set_float (Some (16, 2)) (Some (6949617174986097 / 562949953421312))
     = AsText \<lparr>fixed_digits = 1235, fixed_scale = 2\<rparr>
   \<and> \<bar>6952431924753203 / 562949953421312
        - fixed_value \<lparr>fixed_digits = 1235, fixed_scale = 2\<rparr>\<bar> < 1 / (2 * 10 ^ 2)
   \<and> symbol_set_float (Some (16, 2)) (Some (6952431924753203 / 562949953421312))
     = AsText \<lparr>fixed_digits = 1235, fixed_scale = 2\<rparr>"
proof -
  let ?f = "\<lparr>ftype = ''float'', comodel_name = [], selection = [], digits = Some (16, 2)\<rparr>"
  let ?x = "6949617174986097 / 562949953421312 :: rat"
  let ?d = "6952431924753203 / 562949953421312 :: rat"
  have "float_round ?x 2 = of_int 1235 / 10 ^ 2"
    by (rule float_round_near) simp
  then have "float_repr (float_round ?x 2) 2 = \<lparr>fixed_digits = 1235, fixed_scale = 2\<rparr>"
    by (simp only: float_repr_fixed)
  then have enc: "symbol_set_float (Some (16, 2)) (Some ?x)
     = AsText \<lparr>fixed_digits = 1235, fixed_scale = 2\<rparr>"
    by (simp add: symbol_set_float_def)
  have near: "\<bar>?d - fixed_value \<lparr>fixed_digits = 1235, fixed_scale = 2\<rparr>\<bar> < 1 / (2 * 10 ^ 2)"
    by (simp add: fixed_value_def)
  from float_conversion_and_encoding [of demo_env ?f "''12.345''" 16 2 "Some ?x"]
  obtain m where conv: "str_to_float demo_env ?f (Text ''12.345'') =
       (case py_float demo_env ''12.345'' of
          Some v \<Rightarrow> Inr (PFloat v, [])
        | None \<Rightarrow> Inl (ValueError (NotANumber ''12.345'')))"
    and m: "symbol_set_float (Some (16, 2)) (Some ?x) = AsText \<lparr>fixed_digits = m, fixed_scale = 2\<rparr>"
    and stable: "\<forall>d. \<bar>d - fixed_value \<lparr>fixed_digits = m, fixed_scale = 2\<rparr>\<bar> < 1 / (2 * 10 ^ 2)
                 \<longrightarrow> symbol_set_float (Some (16, 2)) (Some d) =
                     AsText \<lparr>fixed_digits = m, fixed_scale = 2\<rparr>"
    by blast
  from m enc have "m = 1235" by simp
  with stable near have "symbol_set_float (Some (16, 2)) (Some ?d)
     = AsText \<lparr>fixed_digits = 1235, fixed_scale = 2\<rparr>" by blast
  moreover from conv have "str_to_float demo_env ?f (Text ''12.345'') = Inr (PFloat ?x, [])"
    by (simp add: demo_env_def)
  ultimately show ?thesis using enc near by blast
qed

text \<open>
  The claim as written fails: for the field of scale 2 the converter returns the double
  that \<open>float\<close> parses from \<open>12.345\<close>, which is neither 12.35 nor the double of
  12.35.
\<close>

theorem str_to_float_unrounded_counterexample:
  "str_to_float demo_env
       \<lparr>ftype = ''float'', comodel_name = [], selection = [], digits = Some (16, 2)\<rparr>
       (Text ''12.345'')
     = Inr (PFloat (6949617174986097 / 562949953421312), [])
   \<and> (6949617174986097 / 562949953421312 :: rat) \<noteq> 1235 / 100
   \<and> (6949617174986097 / 562949953421312 :: rat) \<noteq> 6952431924753203 / 562949953421312"
  by (simp add: str_to_float_def demo_env_def)

end
